theory Spec2Isabelle
  imports Main
begin

section \<open>The MCP server entry point (src/mcp/server.ts) as a state machine\<close>

text \<open>
  The entry point is one async function \<open>main\<close>, two signal listeners that \<open>main\<close>
  installs, and two process-wide listeners installed when the module is loaded.  It is
  modelled by explicit state passing: a process state \<open>proc\<close> holds the control point
  of the suspended async code, the filesystem, the signal listeners installed so far and
  the trace of everything the process did.  Every \<open>await\<close> of the source is a control
  point; \<open>resume\<close> runs the code from one control point to the next, \<open>deliver\<close> hands
  an external event (a signal, an uncaught exception, an unhandled rejection) to the
  process.  \<open>process.exit\<close> does not return: a state whose control point is \<open>Exited n\<close>
  never changes again.

  What the source does not define is an input of the model, the record \<open>platform\<close>:
  the environment variable, the initial filesystem, exceptions of the \<open>fs\<close> calls
  (permissions, I/O errors), \<open>path.join\<close>, and how the constructors and the methods
  \<open>initializeWithoutCluster\<close>, \<open>start\<close> and \<open>stop\<close> of the two imported classes
  behave.  Errors are modelled by their rendering as a string, as the template literals
  of the source print them.

  Three things are taken for granted.  A write to \<open>process.stderr\<close> succeeds.  The
  handler attached to the promise of \<open>main\<close> in line 124 never runs, because every
  failure inside \<open>main\<close> ends in \<open>process.exit\<close> before \<open>main\<close> could reject.
  And every call of \<open>stop\<close> ends the way the platform says, so that a signal that
  arrives while an earlier call of \<open>stop\<close> is awaited runs its listener again and the
  process ends when the first of these calls settles.
\<close>

subsection \<open>Data\<close>

type_synonym path = string

datatype node = File string | Directory

datatype signal = SIGINT | SIGTERM

datatype fscall = ExistsSync | StatSync | WriteFileSync | UnlinkSync

datatype call = NewDotAI | InitializeWithoutCluster | NewMCPServer | McpStart | McpStop

text \<open>
  How a call that is awaited ends: its promise resolves, its promise rejects, the call
  throws before it returns a promise, or the promise never settles.
\<close>

datatype outcome = Resolves | Rejects string | ThrowsSync string | NeverSettles

text \<open>
  What the process does, in order: a write to \<open>process.stderr\<close> or \<open>process.stdout\<close>,
  a call of \<open>fs\<close> on a path, a call into the imported classes, the installation of a
  signal listener with \<open>process.on\<close>, and \<open>process.exit\<close>.
\<close>

datatype event =
    Stderr string
  | Stdout string
  | Fs fscall path
  | Call call
  | On signal
  | Exit nat

text \<open>
  Control points.  \<open>AtImportFs d\<close> and \<open>AtImportPath d\<close> are the two awaited imports
  of line 31 and 32 (\<open>d\<close> is the local \<open>sessionDir\<close>), \<open>AtInit\<close> is the await of
  line 72, \<open>AtStart\<close> of line 90, \<open>AtStop s\<close> the await inside the listener of signal
  \<open>s\<close> (line 96 or 102).  \<open>Resident\<close>: \<open>main\<close> has returned and the process waits for
  events.  \<open>Killed s\<close>: signal \<open>s\<close> arrived with no listener installed and the
  operating system's default action ended the process.
\<close>

datatype pc =
    Loading
  | AtImportFs path
  | AtImportPath path
  | AtInit
  | AtStart
  | Resident
  | AtStop signal
  | Exited nat
  | Killed signal

record platform =
  session_dir_env :: "string option"
  disk :: "path \<rightharpoonup> node"
  fault :: "fscall \<Rightarrow> string option"
  path_join :: "path \<Rightarrow> string \<Rightarrow> path"
  new_DotAI :: "string option"
  initializeWithoutCluster :: outcome
  new_MCPServer :: "string option"
  mcp_start :: outcome
  mcp_stop :: outcome

record proc =
  pc :: pc
  files :: "path \<rightharpoonup> node"
  handlers :: "signal list"
  trace :: "event list"

datatype input = Signal signal | UncaughtException string | UnhandledRejection string

datatype action = Settle | Deliver input

subsection \<open>The messages of the source\<close>

definition nl :: string where
  "nl = [CHR 0x0A]"

definition msg_validating :: string where
  "msg_validating = ''Validating MCP server configuration...'' @ nl"

definition msg_missing :: "string list" where
  \<open>msg_missing =
    [''FATAL: DOT_AI_SESSION_DIR environment variable is required'' @ nl,
     ''Configuration:'' @ nl,
     ''- Set DOT_AI_SESSION_DIR in .mcp.json env section'' @ nl,
     ''- Example: "DOT_AI_SESSION_DIR": "/tmp/dot-ai-sessions"'' @ nl,
     ''- Ensure the directory exists and is writable'' @ nl]\<close>

definition msg_not_found :: "path \<Rightarrow> string list" where
  "msg_not_found d =
    [''FATAL: Session directory does not exist: '' @ d @ nl,
     ''Solution: Create the directory or update DOT_AI_SESSION_DIR'' @ nl]"

definition msg_not_a_directory :: "path \<Rightarrow> string list" where
  "msg_not_a_directory d =
    [''FATAL: Session directory path is not a directory: '' @ d @ nl,
     ''Solution: Use a valid directory path in DOT_AI_SESSION_DIR'' @ nl]"

definition msg_not_writable :: "path \<Rightarrow> string list" where
  "msg_not_writable d =
    [''FATAL: Session directory is not writable: '' @ d @ nl,
     ''Solution: Fix directory permissions or use a different directory'' @ nl]"

definition msg_validated :: "path \<Rightarrow> string" where
  "msg_validated d = ''Session directory validated: '' @ d @ nl"

definition msg_validation_failed :: "string \<Rightarrow> string" where
  "msg_validation_failed e = ''FATAL: Session directory validation failed: '' @ e @ nl"

definition msg_initializing :: string where
  "msg_initializing = ''Initializing DevOps AI Toolkit...'' @ nl"

definition msg_initialized :: "string list" where
  "msg_initialized =
    [''DevOps AI Toolkit initialized successfully'' @ nl,
     ''Cluster connectivity will be checked when needed by individual tools'' @ nl]"

definition msg_init_failed :: "string \<Rightarrow> string" where
  "msg_init_failed e = ''FATAL: Failed to initialize DevOps AI Toolkit: '' @ e @ nl"

definition msg_starting :: string where
  "msg_starting = ''Starting DevOps AI Toolkit MCP server...'' @ nl"

definition msg_started :: string where
  "msg_started = ''DevOps AI Toolkit MCP server started successfully'' @ nl"

definition msg_shutting_down :: string where
  "msg_shutting_down = ''Shutting down DevOps AI Toolkit MCP server...'' @ nl"

definition msg_failed_to_start :: "string \<Rightarrow> string" where
  "msg_failed_to_start e = ''Failed to start DevOps AI Toolkit MCP server: '' @ e @ nl"

definition msg_uncaught :: "string \<Rightarrow> string" where
  "msg_uncaught e = ''Uncaught exception in MCP server: '' @ e @ nl"

definition msg_unhandled :: "string \<Rightarrow> string" where
  "msg_unhandled r = ''Unhandled rejection in MCP server: '' @ r @ nl"

definition probe_name :: string where
  "probe_name = ''.mcp-test-write''"

definition probe_data :: string where
  "probe_data = ''test''"

subsection \<open>Primitive effects\<close>

definition emit :: "event list \<Rightarrow> proc \<Rightarrow> proc" where
  "emit es p = p\<lparr>trace := trace p @ es\<rparr>"

definition write_stderr :: "string list \<Rightarrow> proc \<Rightarrow> proc" where
  "write_stderr ls p = emit (map Stderr ls) p"

definition process_exit :: "nat \<Rightarrow> proc \<Rightarrow> proc" where
  "process_exit n p = (emit [Exit n] p)\<lparr>pc := Exited n\<rparr>"

definition fatal :: "string list \<Rightarrow> proc \<Rightarrow> proc" where
  "fatal ls p = process_exit 1 (write_stderr ls p)"

text \<open>
  The \<open>fs\<close> calls on the filesystem of the state.  Each one throws the exception the
  platform injects for it, if any; otherwise it does what Node documents.
  \<open>existsSync\<close> is documented never to throw; the injected exception is kept for it too,
  so that the enclosing handler of the source is modelled as written.
\<close>

definition existsSync :: "platform \<Rightarrow> path \<Rightarrow> proc \<Rightarrow> string + bool" where
  "existsSync w f p =
    (case fault w ExistsSync of
       Some e \<Rightarrow> Inl e
     | None \<Rightarrow> Inr (files p f \<noteq> None))"

definition statSync :: "platform \<Rightarrow> path \<Rightarrow> proc \<Rightarrow> string + node" where
  "statSync w f p =
    (case fault w StatSync of
       Some e \<Rightarrow> Inl e
     | None \<Rightarrow>
        (case files p f of
           None \<Rightarrow> Inl (''Error: ENOENT: no such file or directory, stat '' @ f)
         | Some n \<Rightarrow> Inr n))"

definition writeFileSync :: "platform \<Rightarrow> path \<Rightarrow> string \<Rightarrow> proc \<Rightarrow> string + proc" where
  "writeFileSync w f d p =
    (case fault w WriteFileSync of
       Some e \<Rightarrow> Inl e
     | None \<Rightarrow>
        (case files p f of
           Some Directory \<Rightarrow>
             Inl (''Error: EISDIR: illegal operation on a directory, open '' @ f)
         | _ \<Rightarrow> Inr (p\<lparr>files := (files p)(f \<mapsto> File d)\<rparr>)))"

definition unlinkSync :: "platform \<Rightarrow> path \<Rightarrow> proc \<Rightarrow> string + proc" where
  "unlinkSync w f p =
    (case fault w UnlinkSync of
       Some e \<Rightarrow> Inl e
     | None \<Rightarrow>
        (case files p f of
           None \<Rightarrow> Inl (''Error: ENOENT: no such file or directory, unlink '' @ f)
         | Some Directory \<Rightarrow> Inl (''Error: EPERM: operation not permitted, unlink '' @ f)
         | Some (File c) \<Rightarrow> Inr (p\<lparr>files := (files p)(f := None)\<rparr>)))"

subsection \<open>The process-wide listeners (lines 113 to 121)\<close>

definition on_uncaughtException :: "string \<Rightarrow> proc \<Rightarrow> proc" where
  "on_uncaughtException e p = fatal [msg_uncaught e] p"

definition on_unhandledRejection :: "string \<Rightarrow> proc \<Rightarrow> proc" where
  "on_unhandledRejection r p = fatal [msg_unhandled r] p"

subsection \<open>The function main (lines 13 to 110)\<close>

text \<open>The handler of the outer \<open>try\<close> (lines 106 to 109).\<close>

definition main_catch :: "string \<Rightarrow> proc \<Rightarrow> proc" where
  "main_catch e p = fatal [msg_failed_to_start e] p"

text \<open>Lines 14 to 31: up to the first awaited import.\<close>

definition main_begin :: "platform \<Rightarrow> proc \<Rightarrow> proc" where
  "main_begin w p =
    (let p = write_stderr [msg_validating] p in
     case session_dir_env w of
       None \<Rightarrow> fatal msg_missing p
     | Some d \<Rightarrow> if d = [] then fatal msg_missing p else p\<lparr>pc := AtImportFs d\<rparr>)"

text \<open>
  Lines 35 to 64: the checks of the session directory, inside the inner \<open>try\<close>.  An
  exception of \<open>existsSync\<close> or \<open>statSync\<close> reaches the handler of line 61; one of
  \<open>writeFileSync\<close> or \<open>unlinkSync\<close> reaches the handler of line 55.
\<close>

definition probe :: "platform \<Rightarrow> path \<Rightarrow> proc \<Rightarrow> proc" where
  "probe w d p =
    (let testFile = path_join w d probe_name;
         p = emit [Fs WriteFileSync testFile] p in
     case writeFileSync w testFile probe_data p of
       Inl writeError \<Rightarrow> fatal (msg_not_writable d) p
     | Inr p \<Rightarrow>
        (let p = emit [Fs UnlinkSync testFile] p in
         case unlinkSync w testFile p of
           Inl writeError \<Rightarrow> fatal (msg_not_writable d) p
         | Inr p \<Rightarrow> write_stderr [msg_validated d] p))"

definition validate_dir :: "platform \<Rightarrow> path \<Rightarrow> proc \<Rightarrow> proc" where
  "validate_dir w d p =
    (let p = emit [Fs ExistsSync d] p in
     case existsSync w d p of
       Inl error \<Rightarrow> fatal [msg_validation_failed error] p
     | Inr found \<Rightarrow>
        if \<not> found then fatal (msg_not_found d) p
        else
          (let p = emit [Fs StatSync d] p in
           case statSync w d p of
             Inl error \<Rightarrow> fatal [msg_validation_failed error] p
           | Inr stat \<Rightarrow>
              if stat \<noteq> Directory then fatal (msg_not_a_directory d) p
              else probe w d p))"

text \<open>Lines 67 to 72: construct the toolkit and call its initialization.\<close>

definition begin_init :: "platform \<Rightarrow> proc \<Rightarrow> proc" where
  "begin_init w p =
    (let p = emit [Call NewDotAI] p in
     case new_DotAI w of
       Some e \<Rightarrow> main_catch e p
     | None \<Rightarrow>
        (let p = write_stderr [msg_initializing] p;
             p = emit [Call InitializeWithoutCluster] p in
         case initializeWithoutCluster w of
           ThrowsSync initError \<Rightarrow> fatal [msg_init_failed initError] p
         | _ \<Rightarrow> p\<lparr>pc := AtInit\<rparr>))"

text \<open>
  Lines 73 to 90: after the initialization has settled.  Nothing goes on while the awaited
  promise does not settle; a call that threw was never awaited (\<open>begin_init\<close> has ended
  the process then), so the state is left as it is in that case too.
\<close>

definition begin_start :: "platform \<Rightarrow> proc \<Rightarrow> proc" where
  "begin_start w p =
    (let p = emit [Call NewMCPServer] p in
     case new_MCPServer w of
       Some e \<Rightarrow> main_catch e p
     | None \<Rightarrow>
        (let p = write_stderr [msg_starting] p;
             p = emit [Call McpStart] p in
         case mcp_start w of
           ThrowsSync e \<Rightarrow> main_catch e p
         | _ \<Rightarrow> p\<lparr>pc := AtStart\<rparr>))"

definition after_init :: "platform \<Rightarrow> proc \<Rightarrow> proc" where
  "after_init w p =
    (case initializeWithoutCluster w of
       Resolves \<Rightarrow> begin_start w (write_stderr msg_initialized p)
     | Rejects initError \<Rightarrow> fatal [msg_init_failed initError] p
     | _ \<Rightarrow> p)"

text \<open>Lines 91 to 104: after the start has settled.\<close>

definition after_start :: "platform \<Rightarrow> proc \<Rightarrow> proc" where
  "after_start w p =
    (case mcp_start w of
       Resolves \<Rightarrow>
        (let p = write_stderr [msg_started] p;
             p = (emit [On SIGINT] p)\<lparr>handlers := handlers p @ [SIGINT]\<rparr>;
             p = (emit [On SIGTERM] p)\<lparr>handlers := handlers p @ [SIGTERM]\<rparr>
         in p\<lparr>pc := Resident\<rparr>)
     | Rejects e \<Rightarrow> main_catch e p
     | _ \<Rightarrow> p)"

subsection \<open>The signal listeners (lines 94 to 98 and 100 to 104)\<close>

text \<open>
  Each listener is an async function of its own.  When \<open>stop\<close> throws or its promise
  rejects, the promise of the listener rejects; nothing handles it, so Node emits
  \<open>unhandledRejection\<close>, whose listener is installed since the module was loaded.
\<close>

definition on_SIGINT :: "platform \<Rightarrow> proc \<Rightarrow> proc" where
  "on_SIGINT w p =
    (let p = write_stderr [msg_shutting_down] p;
         p = emit [Call McpStop] p in
     case mcp_stop w of
       ThrowsSync e \<Rightarrow> on_unhandledRejection e p
     | _ \<Rightarrow> p\<lparr>pc := AtStop SIGINT\<rparr>)"

definition after_stop_SIGINT :: "platform \<Rightarrow> proc \<Rightarrow> proc" where
  "after_stop_SIGINT w p =
    (case mcp_stop w of
       Resolves \<Rightarrow> process_exit 0 p
     | Rejects e \<Rightarrow> on_unhandledRejection e p
     | _ \<Rightarrow> p)"

definition on_SIGTERM :: "platform \<Rightarrow> proc \<Rightarrow> proc" where
  "on_SIGTERM w p =
    (let p = write_stderr [msg_shutting_down] p;
         p = emit [Call McpStop] p in
     case mcp_stop w of
       ThrowsSync e \<Rightarrow> on_unhandledRejection e p
     | _ \<Rightarrow> p\<lparr>pc := AtStop SIGTERM\<rparr>)"

definition after_stop_SIGTERM :: "platform \<Rightarrow> proc \<Rightarrow> proc" where
  "after_stop_SIGTERM w p =
    (case mcp_stop w of
       Resolves \<Rightarrow> process_exit 0 p
     | Rejects e \<Rightarrow> on_unhandledRejection e p
     | _ \<Rightarrow> p)"

subsection \<open>Running the process\<close>

text \<open>
  Loading the module (lines 113 to 127) installs the process-wide listeners and calls
  \<open>main\<close>, which runs to its first \<open>await\<close>.
\<close>

definition boot :: "platform \<Rightarrow> proc" where
  "boot w = main_begin w \<lparr>pc = Loading, files = disk w, handlers = [], trace = []\<rparr>"

text \<open>
  The awaited promise settles and the suspended code runs to its next \<open>await\<close>.  The
  imports of the built-in modules always resolve.  After the checks of the session
  directory the code goes on only if no branch has called \<open>process.exit\<close>.
\<close>

definition resume :: "platform \<Rightarrow> proc \<Rightarrow> proc" where
  "resume w p =
    (case pc p of
       AtImportFs d \<Rightarrow> p\<lparr>pc := AtImportPath d\<rparr>
     | AtImportPath d \<Rightarrow>
        (let q = validate_dir w d p in
         case pc q of Exited n \<Rightarrow> q | _ \<Rightarrow> begin_init w q)
     | AtInit \<Rightarrow> after_init w p
     | AtStart \<Rightarrow> after_start w p
     | AtStop SIGINT \<Rightarrow> after_stop_SIGINT w p
     | AtStop SIGTERM \<Rightarrow> after_stop_SIGTERM w p
     | _ \<Rightarrow> p)"

text \<open>
  An external event reaches a live process.  A signal runs its listener when one is
  installed; with none installed the default action of the signal ends the process.
\<close>

definition live :: "proc \<Rightarrow> bool" where
  "live p = (case pc p of Exited n \<Rightarrow> False | Killed s \<Rightarrow> False | _ \<Rightarrow> True)"

definition deliver :: "platform \<Rightarrow> input \<Rightarrow> proc \<Rightarrow> proc" where
  "deliver w i p =
    (if \<not> live p then p
     else case i of
       Signal s \<Rightarrow>
        if s \<in> set (handlers p)
        then (case s of SIGINT \<Rightarrow> on_SIGINT w p | SIGTERM \<Rightarrow> on_SIGTERM w p)
        else p\<lparr>pc := Killed s\<rparr>
     | UncaughtException e \<Rightarrow> on_uncaughtException e p
     | UnhandledRejection r \<Rightarrow> on_unhandledRejection r p)"

definition step :: "platform \<Rightarrow> proc \<Rightarrow> action \<Rightarrow> proc" where
  "step w p a = (case a of Settle \<Rightarrow> resume w p | Deliver i \<Rightarrow> deliver w i p)"

definition exec :: "platform \<Rightarrow> action list \<Rightarrow> proc" where
  "exec w as = foldl (step w) (boot w) as"

text \<open>The start-up sequence with no external event: the four awaits of \<open>main\<close> settle.\<close>

definition run :: "platform \<Rightarrow> proc" where
  "run w = exec w [Settle, Settle, Settle, Settle]"

text \<open>
  Lines 14 to 64 on their own: the checks of the configuration and of the session
  directory, with the two imports settled and no external event in between.
\<close>

definition preflight :: "platform \<Rightarrow> proc" where
  "preflight w =
    (case pc (boot w) of
       AtImportFs d \<Rightarrow> validate_dir w d ((boot w)\<lparr>pc := AtImportPath d\<rparr>)
     | _ \<Rightarrow> boot w)"

subsection \<open>Observations of a state\<close>

fun call_of :: "event \<Rightarrow> call list" where
  "call_of (Call c) = [c]"
| "call_of e = []"

fun exit_of :: "event \<Rightarrow> nat list" where
  "exit_of (Exit n) = [n]"
| "exit_of e = []"

fun stdout_of :: "event \<Rightarrow> string list" where
  "stdout_of (Stdout s) = [s]"
| "stdout_of e = []"

fun stderr_of :: "event \<Rightarrow> string list" where
  "stderr_of (Stderr s) = [s]"
| "stderr_of e = []"

fun fs_of :: "event \<Rightarrow> fscall list" where
  "fs_of (Fs c f) = [c]"
| "fs_of e = []"

definition calls :: "proc \<Rightarrow> call list" where
  "calls p = concat (map call_of (trace p))"

definition exits :: "proc \<Rightarrow> nat list" where
  "exits p = concat (map exit_of (trace p))"

definition stdout_lines :: "proc \<Rightarrow> string list" where
  "stdout_lines p = concat (map stdout_of (trace p))"

definition stderr_lines :: "proc \<Rightarrow> string list" where
  "stderr_lines p = concat (map stderr_of (trace p))"

definition fs_calls :: "proc \<Rightarrow> fscall list" where
  "fs_calls p = concat (map fs_of (trace p))"

definition stop_calls :: "proc \<Rightarrow> nat" where
  "stop_calls p = count_list (calls p) McpStop"

definition exit_code :: "proc \<Rightarrow> nat option" where
  "exit_code p = (case pc p of Exited n \<Rightarrow> Some n | _ \<Rightarrow> None)"

text \<open>
  The lifecycle states of the specification, read off the control point: the process is
  in the state whose awaited operation it is suspended on.
\<close>

datatype lifecycle =
  Validating | Initializing | Starting | Running | ShuttingDown | Terminated

fun lifecycle_of :: "pc \<Rightarrow> lifecycle" where
  "lifecycle_of Loading = Validating"
| "lifecycle_of (AtImportFs d) = Validating"
| "lifecycle_of (AtImportPath d) = Validating"
| "lifecycle_of AtInit = Initializing"
| "lifecycle_of AtStart = Starting"
| "lifecycle_of Resident = Running"
| "lifecycle_of (AtStop s) = ShuttingDown"
| "lifecycle_of (Exited n) = Terminated"
| "lifecycle_of (Killed s) = Terminated"

definition before_running :: "proc \<Rightarrow> bool" where
  "before_running p =
    (lifecycle_of (pc p) = Validating \<or> lifecycle_of (pc p) = Initializing \<or>
     lifecycle_of (pc p) = Starting)"

text \<open>
  The end of a trace, read backwards.  \<open>explained\<close>: the call of \<open>process.exit\<close> comes
  right after a line on the diagnostic stream, or right after the call of \<open>stop\<close> that
  the shutdown notice announced.  \<open>stopping\<close>: the last thing done is the call of
  \<open>stop\<close> after the shutdown notice.
\<close>

fun explained :: "event list \<Rightarrow> bool" where
  "explained (Exit n # Stderr m # es) = True"
| "explained (Exit n # Call McpStop # Stderr m # es) = (n = 0)"
| "explained es = False"

fun stopping :: "event list \<Rightarrow> bool" where
  "stopping (Call McpStop # Stderr m # es) = True"
| "stopping es = False"

text \<open>An awaited call fails when it throws or when its promise rejects.\<close>

fun throws_sync :: "outcome \<Rightarrow> bool" where
  "throws_sync (ThrowsSync e) = True"
| "throws_sync r = False"

fun failure_of :: "outcome \<Rightarrow> string option" where
  "failure_of (Rejects e) = Some e"
| "failure_of (ThrowsSync e) = Some e"
| "failure_of r = None"

text \<open>
  The start-up sequence is stuck: it awaits a promise that never settles.
\<close>

definition hung :: "platform \<Rightarrow> proc \<Rightarrow> bool" where
  "hung w p \<longleftrightarrow>
     pc p = AtInit \<and> initializeWithoutCluster w = NeverSettles \<or>
     pc p = AtStart \<and> mcp_start w = NeverSettles"

definition boot_calls :: "call list" where
  "boot_calls = [NewDotAI, InitializeWithoutCluster, NewMCPServer, McpStart]"

text \<open>What holds of every state the process can be in, whatever the platform does.\<close>

definition lifecycle_inv :: "platform \<Rightarrow> proc \<Rightarrow> bool" where
  "lifecycle_inv w p \<longleftrightarrow>
     stdout_lines p = [] \<and>
     (McpStop \<in> set (calls p) \<longrightarrow> handlers p \<noteq> []) \<and>
     (NewMCPServer \<in> set (calls p) \<longrightarrow> initializeWithoutCluster w = Resolves) \<and>
     (McpStart \<in> set (calls p) \<longrightarrow> initializeWithoutCluster w = Resolves) \<and>
     (handlers p = [] \<or>
      handlers p = [SIGINT, SIGTERM] \<and> mcp_start w = Resolves \<and>
      initializeWithoutCluster w = Resolves \<and> McpStart \<in> set (calls p)) \<and>
     (case pc p of
        Loading \<Rightarrow> False
      | AtImportFs d \<Rightarrow> handlers p = [] \<and> exits p = [] \<and> calls p = []
      | AtImportPath d \<Rightarrow> handlers p = [] \<and> exits p = [] \<and> calls p = []
      | AtInit \<Rightarrow> handlers p = [] \<and> exits p = [] \<and>
          calls p = [NewDotAI, InitializeWithoutCluster] \<and>
          \<not> throws_sync (initializeWithoutCluster w)
      | AtStart \<Rightarrow> handlers p = [] \<and> exits p = [] \<and> calls p = boot_calls \<and>
          \<not> throws_sync (mcp_start w)
      | Resident \<Rightarrow> handlers p \<noteq> [] \<and> exits p = [] \<and> calls p = boot_calls
      | AtStop s \<Rightarrow> handlers p \<noteq> [] \<and> exits p = [] \<and> stopping (rev (trace p))
      | Exited n \<Rightarrow> exits p = [n] \<and> explained (rev (trace p)) \<and>
          (if handlers p = [] then n = 1 else n \<le> 1) \<and>
          (n = 0 \<longrightarrow> mcp_stop w = Resolves)
      | Killed s \<Rightarrow> handlers p = [] \<and> exits p = [])"

subsection \<open>The preflight contract in the words of the specification\<close>

text \<open>
  Section 4.1: the four named failures, checked in this order, and success only when all
  four checks pass.  \<open>diagnostic\<close> is the text the source prints for each of them, and
  \<open>later_checks\<close> the filesystem calls that belong to the checks after the failing one.
\<close>

datatype validation_failure = MissingConfig | PathNotFound | NotADirectory | NotWritable

definition validate_spec :: "bool \<Rightarrow> bool \<Rightarrow> bool \<Rightarrow> bool \<Rightarrow> validation_failure option" where
  "validate_spec present found is_dir writable =
    (if \<not> present then Some MissingConfig
     else if \<not> found then Some PathNotFound
     else if \<not> is_dir then Some NotADirectory
     else if \<not> writable then Some NotWritable
     else None)"

fun diagnostic :: "validation_failure \<Rightarrow> path \<Rightarrow> string list" where
  "diagnostic MissingConfig d = msg_missing"
| "diagnostic PathNotFound d = msg_not_found d"
| "diagnostic NotADirectory d = msg_not_a_directory d"
| "diagnostic NotWritable d = msg_not_writable d"

fun later_checks :: "validation_failure \<Rightarrow> fscall list" where
  "later_checks MissingConfig = [ExistsSync, StatSync, WriteFileSync, UnlinkSync]"
| "later_checks PathNotFound = [StatSync, WriteFileSync, UnlinkSync]"
| "later_checks NotADirectory = [WriteFileSync, UnlinkSync]"
| "later_checks NotWritable = []"

text \<open>The four components of the input that the contract speaks of, for a platform.\<close>

definition configured :: "platform \<Rightarrow> bool" where
  "configured w = (case session_dir_env w of None \<Rightarrow> False | Some d \<Rightarrow> d \<noteq> [])"

definition session_dir :: "platform \<Rightarrow> path" where
  "session_dir w = (case session_dir_env w of None \<Rightarrow> [] | Some d \<Rightarrow> d)"

definition path_exists :: "platform \<Rightarrow> bool" where
  "path_exists w = (disk w (session_dir w) \<noteq> None)"

definition is_directory :: "platform \<Rightarrow> bool" where
  "is_directory w = (disk w (session_dir w) = Some Directory)"

definition probe_path :: "platform \<Rightarrow> path" where
  "probe_path w = path_join w (session_dir w) probe_name"

definition on_disk :: "platform \<Rightarrow> proc" where
  "on_disk w = \<lparr>pc = Loading, files = disk w, handlers = [], trace = []\<rparr>"

definition probe_written :: "platform \<Rightarrow> bool" where
  "probe_written w =
    (case writeFileSync w (probe_path w) probe_data (on_disk w) of
       Inl e \<Rightarrow> False
     | Inr p \<Rightarrow> True)"

definition probe_ok :: "platform \<Rightarrow> bool" where
  "probe_ok w =
    (case writeFileSync w (probe_path w) probe_data (on_disk w) of
       Inl e \<Rightarrow> False
     | Inr p \<Rightarrow> (case unlinkSync w (probe_path w) p of Inl e \<Rightarrow> False | Inr q \<Rightarrow> True))"

definition expected_stderr :: "platform \<Rightarrow> string list" where
  "expected_stderr w =
    msg_validating #
    (case validate_spec (configured w) (path_exists w) (is_directory w) (probe_ok w) of
       Some f \<Rightarrow> diagnostic f (session_dir w)
     | None \<Rightarrow> [msg_validated (session_dir w)])"

definition expected_exit :: "platform \<Rightarrow> nat option" where
  "expected_exit w =
    (case validate_spec (configured w) (path_exists w) (is_directory w) (probe_ok w) of
       Some f \<Rightarrow> Some 1
     | None \<Rightarrow> None)"

subsection \<open>Concrete platforms\<close>

text \<open>
  \<open>posix_join\<close> is what \<open>path.join\<close> returns for a directory path in normal form
  without a trailing separator and a plain file name.
\<close>

definition posix_join :: "path \<Rightarrow> string \<Rightarrow> path" where
  "posix_join d n = d @ ''/'' @ n"

definition no_fault :: "fscall \<Rightarrow> string option" where
  "no_fault c = None"

definition w_ok :: platform where
  "w_ok =
    \<lparr>session_dir_env = Some ''/tmp/s'',
     disk = [''/tmp/s'' \<mapsto> Directory],
     fault = no_fault,
     path_join = posix_join,
     new_DotAI = None,
     initializeWithoutCluster = Resolves,
     new_MCPServer = None,
     mcp_start = Resolves,
     mcp_stop = Resolves\<rparr>"

definition stat_busy :: "fscall \<Rightarrow> string option" where
  "stat_busy c =
    (if c = StatSync then Some ''Error: EBUSY: resource busy or locked, stat'' else None)"

definition unlink_denied :: "fscall \<Rightarrow> string option" where
  "unlink_denied c =
    (if c = UnlinkSync then Some ''Error: EPERM: operation not permitted, unlink'' else None)"

definition w_file :: platform where
  "w_file = w_ok\<lparr>disk := [''/tmp/s'' \<mapsto> File ''data'']\<rparr>"

definition w_file_busy :: platform where
  "w_file_busy = w_file\<lparr>fault := stat_busy\<rparr>"

definition w_dir_busy :: platform where
  "w_dir_busy = w_ok\<lparr>fault := stat_busy\<rparr>"


definition w_unlink_denied :: platform where
  "w_unlink_denied = w_ok\<lparr>fault := unlink_denied\<rparr>"

definition w_init_rejects :: platform where
  "w_init_rejects = w_ok\<lparr>initializeWithoutCluster := Rejects ''Error: no API key''\<rparr>"

definition w_start_rejects :: platform where
  "w_start_rejects = w_ok\<lparr>mcp_start := Rejects ''Error: EADDRINUSE''\<rparr>"

definition w_stop_rejects :: platform where
  "w_stop_rejects = w_ok\<lparr>mcp_stop := Rejects ''Error: close failed''\<rparr>"

definition w_unset :: platform where
  "w_unset = w_ok\<lparr>session_dir_env := None\<rparr>"

definition w_missing_dir :: platform where
  "w_missing_dir = w_ok\<lparr>disk := Map.empty\<rparr>"

definition boot_schedule :: "action list" where
  "boot_schedule = [Settle, Settle, Settle, Settle]"


text \<open>What a listener of a shutdown signal does once \<open>stop\<close> has settled.\<close>

definition shutdown_events :: "platform \<Rightarrow> event list" where
  "shutdown_events w =
    [Stderr msg_shutting_down, Call McpStop] @
    (case mcp_stop w of
       Resolves \<Rightarrow> [Exit 0]
     | Rejects e \<Rightarrow> [Stderr (msg_unhandled e), Exit 1]
     | ThrowsSync e \<Rightarrow> [Stderr (msg_unhandled e), Exit 1]
     | NeverSettles \<Rightarrow> [])"

definition shutdown_exit :: "platform \<Rightarrow> nat option" where
  "shutdown_exit w =
    (case mcp_stop w of
       Resolves \<Rightarrow> Some 0
     | Rejects e \<Rightarrow> Some 1
     | ThrowsSync e \<Rightarrow> Some 1
     | NeverSettles \<Rightarrow> None)"

section \<open>Basic facts about the model\<close>

lemma concat_call_of_Stderr [simp]: "concat (map (call_of \<circ> Stderr) ls) = []"
  by (induction ls) simp_all

lemma concat_exit_of_Stderr [simp]: "concat (map (exit_of \<circ> Stderr) ls) = []"
  by (induction ls) simp_all

lemma concat_stdout_of_Stderr [simp]: "concat (map (stdout_of \<circ> Stderr) ls) = []"
  by (induction ls) simp_all

lemma concat_fs_of_Stderr [simp]: "concat (map (fs_of \<circ> Stderr) ls) = []"
  by (induction ls) simp_all

lemma concat_stderr_of_Stderr [simp]: "concat (map (stderr_of \<circ> Stderr) ls) = ls"
  by (induction ls) simp_all

lemmas observation_defs =
  calls_def exits_def stdout_lines_def stderr_lines_def fs_calls_def

lemma emit_simps [simp]:
  "pc (emit es p) = pc p"
  "files (emit es p) = files p"
  "handlers (emit es p) = handlers p"
  "trace (emit es p) = trace p @ es"
  "calls (emit es p) = calls p @ concat (map call_of es)"
  "exits (emit es p) = exits p @ concat (map exit_of es)"
  "stdout_lines (emit es p) = stdout_lines p @ concat (map stdout_of es)"
  "stderr_lines (emit es p) = stderr_lines p @ concat (map stderr_of es)"
  "fs_calls (emit es p) = fs_calls p @ concat (map fs_of es)"
  by (simp_all add: emit_def observation_defs)

lemma write_stderr_simps [simp]:
  "pc (write_stderr ls p) = pc p"
  "files (write_stderr ls p) = files p"
  "handlers (write_stderr ls p) = handlers p"
  "trace (write_stderr ls p) = trace p @ map Stderr ls"
  "calls (write_stderr ls p) = calls p"
  "exits (write_stderr ls p) = exits p"
  "stdout_lines (write_stderr ls p) = stdout_lines p"
  "stderr_lines (write_stderr ls p) = stderr_lines p @ ls"
  "fs_calls (write_stderr ls p) = fs_calls p"
  by (simp_all add: write_stderr_def)

lemma process_exit_simps [simp]:
  "pc (process_exit n p) = Exited n"
  "files (process_exit n p) = files p"
  "handlers (process_exit n p) = handlers p"
  "trace (process_exit n p) = trace p @ [Exit n]"
  "calls (process_exit n p) = calls p"
  "exits (process_exit n p) = exits p @ [n]"
  "stdout_lines (process_exit n p) = stdout_lines p"
  "stderr_lines (process_exit n p) = stderr_lines p"
  "fs_calls (process_exit n p) = fs_calls p"
  by (simp_all add: process_exit_def observation_defs)

lemma fatal_simps [simp]:
  "pc (fatal ls p) = Exited 1"
  "files (fatal ls p) = files p"
  "handlers (fatal ls p) = handlers p"
  "trace (fatal ls p) = trace p @ map Stderr ls @ [Exit 1]"
  "calls (fatal ls p) = calls p"
  "exits (fatal ls p) = exits p @ [1]"
  "stdout_lines (fatal ls p) = stdout_lines p"
  "stderr_lines (fatal ls p) = stderr_lines p @ ls"
  "fs_calls (fatal ls p) = fs_calls p"
  by (simp_all add: fatal_def)

lemma update_simps [simp]:
  "calls (p\<lparr>pc := c\<rparr>) = calls p"
  "exits (p\<lparr>pc := c\<rparr>) = exits p"
  "stdout_lines (p\<lparr>pc := c\<rparr>) = stdout_lines p"
  "stderr_lines (p\<lparr>pc := c\<rparr>) = stderr_lines p"
  "fs_calls (p\<lparr>pc := c\<rparr>) = fs_calls p"
  "calls (p\<lparr>files := f\<rparr>) = calls p"
  "exits (p\<lparr>files := f\<rparr>) = exits p"
  "stdout_lines (p\<lparr>files := f\<rparr>) = stdout_lines p"
  "stderr_lines (p\<lparr>files := f\<rparr>) = stderr_lines p"
  "fs_calls (p\<lparr>files := f\<rparr>) = fs_calls p"
  "calls (p\<lparr>handlers := h\<rparr>) = calls p"
  "exits (p\<lparr>handlers := h\<rparr>) = exits p"
  "stdout_lines (p\<lparr>handlers := h\<rparr>) = stdout_lines p"
  "stderr_lines (p\<lparr>handlers := h\<rparr>) = stderr_lines p"
  "fs_calls (p\<lparr>handlers := h\<rparr>) = fs_calls p"
  by (simp_all add: observation_defs)

lemma exit_code_simps [simp]:
  "exit_code (process_exit n p) = Some n"
  "exit_code (fatal ls p) = Some 1"
  "exit_code (emit es p) = exit_code p"
  "exit_code (write_stderr ls p) = exit_code p"
  "exit_code (p\<lparr>files := f\<rparr>) = exit_code p"
  "exit_code (p\<lparr>handlers := h\<rparr>) = exit_code p"
  by (simp_all add: exit_code_def)

lemma exit_code_Some: "exit_code p = Some n \<longleftrightarrow> pc p = Exited n"
  by (simp add: exit_code_def split: pc.split)

lemma explained_fatal: "ls \<noteq> [] \<Longrightarrow> explained (Exit n # rev (map Stderr ls) @ es)"
  by (cases ls rule: rev_cases) simp_all

lemma msg_nonempty [simp]:
  "msg_missing \<noteq> []"
  "msg_not_found d \<noteq> []"
  "msg_not_a_directory d \<noteq> []"
  "msg_not_writable d \<noteq> []"
  "msg_initialized \<noteq> []"
  by (simp_all add: msg_missing_def msg_not_found_def msg_not_a_directory_def
      msg_not_writable_def msg_initialized_def)

lemmas fs_defs = existsSync_def statSync_def writeFileSync_def unlinkSync_def

subsection \<open>A process that has ended stays as it is\<close>

lemma resume_Exited: "pc p = Exited n \<Longrightarrow> resume w p = p"
  by (simp add: resume_def)

lemma resume_Killed: "pc p = Killed s \<Longrightarrow> resume w p = p"
  by (simp add: resume_def)

lemma resume_Resident: "pc p = Resident \<Longrightarrow> resume w p = p"
  by (simp add: resume_def)

lemma deliver_Exited: "pc p = Exited n \<Longrightarrow> deliver w i p = p"
  by (simp add: deliver_def live_def)

lemma step_Exited: "pc p = Exited n \<Longrightarrow> step w p a = p"
  by (cases a) (simp_all add: step_def resume_Exited deliver_Exited)

lemma exec_Nil: "exec w [] = boot w"
  by (simp add: exec_def)

lemma exec_snoc: "exec w (as @ [a]) = step w (exec w as) a"
  by (simp add: exec_def)

lemma exec_append: "exec w (as @ bs) = foldl (step w) (exec w as) bs"
  by (simp add: exec_def)

lemma foldl_step_Exited: "pc p = Exited n \<Longrightarrow> foldl (step w) p as = p"
  by (induction as) (simp_all add: step_Exited)

lemma run_unfold: "run w = resume w (resume w (resume w (resume w (boot w))))"
  by (simp add: run_def exec_def step_def)

subsection \<open>The invariant holds of every state of every execution\<close>

lemma inv_boot: "lifecycle_inv w (boot w)"
  by (simp add: lifecycle_inv_def boot_def main_begin_def Let_def observation_defs explained_fatal
      split: option.split)

lemma pc_validate_dir:
  "pc (validate_dir w d p) = pc p \<or> pc (validate_dir w d p) = Exited 1"
  by (simp add: validate_dir_def probe_def fs_defs Let_def split: option.split node.split)

lemma inv_validate_dir:
  "lifecycle_inv w p \<Longrightarrow> pc p = AtImportPath d \<Longrightarrow> lifecycle_inv w (validate_dir w d p)"
  by (auto simp add: lifecycle_inv_def validate_dir_def probe_def fs_defs Let_def explained_fatal
      split: option.split node.split)

lemma inv_begin_init:
  "lifecycle_inv w p \<Longrightarrow> pc p = AtImportPath d \<Longrightarrow> lifecycle_inv w (begin_init w p)"
  by (auto simp add: lifecycle_inv_def begin_init_def main_catch_def Let_def explained_fatal
      split: option.split outcome.split)

lemma inv_after_init: "lifecycle_inv w p \<Longrightarrow> pc p = AtInit \<Longrightarrow> lifecycle_inv w (after_init w p)"
  by (auto simp add: boot_calls_def lifecycle_inv_def after_init_def begin_start_def main_catch_def
      Let_def explained_fatal split: option.split outcome.split)

lemma inv_after_start: "lifecycle_inv w p \<Longrightarrow> pc p = AtStart \<Longrightarrow> lifecycle_inv w (after_start w p)"
  by (auto simp add: boot_calls_def lifecycle_inv_def after_start_def main_catch_def Let_def
      explained_fatal split: option.split outcome.split)

lemma inv_on_SIGINT: "lifecycle_inv w p \<Longrightarrow> live p \<Longrightarrow> SIGINT \<in> set (handlers p) \<Longrightarrow> lifecycle_inv w (on_SIGINT w p)"
  by (auto simp add: boot_calls_def lifecycle_inv_def on_SIGINT_def on_unhandledRejection_def live_def
      Let_def explained_fatal split: option.split outcome.split pc.splits)

lemma inv_on_SIGTERM: "lifecycle_inv w p \<Longrightarrow> live p \<Longrightarrow> SIGTERM \<in> set (handlers p) \<Longrightarrow> lifecycle_inv w (on_SIGTERM w p)"
  by (auto simp add: boot_calls_def lifecycle_inv_def on_SIGTERM_def on_unhandledRejection_def live_def
      Let_def explained_fatal split: option.split outcome.split pc.splits)

lemma inv_after_stop_SIGINT:
  "lifecycle_inv w p \<Longrightarrow> pc p = AtStop s \<Longrightarrow> lifecycle_inv w (after_stop_SIGINT w p)"
  by (auto simp add: lifecycle_inv_def after_stop_SIGINT_def on_unhandledRejection_def Let_def
      explained_fatal split: outcome.split elim: stopping.elims)

lemma inv_after_stop_SIGTERM:
  "lifecycle_inv w p \<Longrightarrow> pc p = AtStop s \<Longrightarrow> lifecycle_inv w (after_stop_SIGTERM w p)"
  by (auto simp add: lifecycle_inv_def after_stop_SIGTERM_def on_unhandledRejection_def Let_def
      explained_fatal split: outcome.split elim: stopping.elims)

lemma inv_fatal: "lifecycle_inv w p \<Longrightarrow> live p \<Longrightarrow> lifecycle_inv w (fatal [m] p)"
  by (auto simp add: lifecycle_inv_def live_def split: pc.splits)

lemma inv_Killed:
  "lifecycle_inv w p \<Longrightarrow> live p \<Longrightarrow> s \<notin> set (handlers p) \<Longrightarrow> lifecycle_inv w (p\<lparr>pc := Killed s\<rparr>)"
  by (cases s) (auto simp add: lifecycle_inv_def live_def split: pc.splits)

lemma inv_resume: "lifecycle_inv w p \<Longrightarrow> lifecycle_inv w (resume w p)"
proof (cases "pc p")
  case (AtImportFs d)
  assume "lifecycle_inv w p"
  with AtImportFs show ?thesis by (simp add: resume_def lifecycle_inv_def)
next
  case (AtImportPath d)
  assume i: "lifecycle_inv w p"
  have v: "lifecycle_inv w (validate_dir w d p)"
    using i AtImportPath by (rule inv_validate_dir)
  from pc_validate_dir [of w d p] show ?thesis
  proof
    assume same: "pc (validate_dir w d p) = pc p"
    then have "lifecycle_inv w (begin_init w (validate_dir w d p))"
      using v AtImportPath by (simp add: inv_begin_init)
    with same AtImportPath show ?thesis by (simp add: resume_def Let_def)
  next
    assume "pc (validate_dir w d p) = Exited 1"
    with v AtImportPath show ?thesis by (simp add: resume_def Let_def)
  qed
next
  case AtInit
  assume "lifecycle_inv w p"
  with AtInit show ?thesis by (simp add: resume_def inv_after_init)
next
  case AtStart
  assume "lifecycle_inv w p"
  with AtStart show ?thesis by (simp add: resume_def inv_after_start)
next
  case (AtStop s)
  assume "lifecycle_inv w p"
  with AtStop show ?thesis
    by (cases s) (simp_all add: resume_def inv_after_stop_SIGINT inv_after_stop_SIGTERM)
qed (simp_all add: resume_def)

lemma inv_deliver: "lifecycle_inv w p \<Longrightarrow> lifecycle_inv w (deliver w i p)"
  by (cases i)
    (auto simp add: deliver_def inv_on_SIGINT inv_on_SIGTERM inv_Killed inv_fatal
      on_uncaughtException_def on_unhandledRejection_def split: signal.split)

lemma inv_step: "lifecycle_inv w p \<Longrightarrow> lifecycle_inv w (step w p a)"
  by (cases a) (simp_all add: step_def inv_resume inv_deliver)

lemma inv_exec: "lifecycle_inv w (exec w as)"
  by (induction as rule: rev_induct) (simp_all add: exec_Nil inv_boot exec_snoc inv_step)

subsection \<open>Evaluation on concrete platforms\<close>

lemmas block_defs =
  main_begin_def probe_def validate_dir_def begin_init_def begin_start_def after_init_def
  after_start_def on_SIGINT_def on_SIGTERM_def after_stop_SIGINT_def after_stop_SIGTERM_def
  on_uncaughtException_def on_unhandledRejection_def main_catch_def

lemmas machine_defs =
  run_def exec_def step_def resume_def deliver_def live_def boot_def preflight_def

lemmas platform_defs =
  w_ok_def posix_join_def no_fault_def boot_schedule_def probe_name_def probe_data_def

lemmas eval_defs = machine_defs block_defs fs_defs platform_defs Let_def

section \<open>The claims\<close>





lemma Running_iff: "lifecycle_of c = Running \<longleftrightarrow> c = Resident"
  by (cases c) simp_all

lemma inv_Resident:
  "lifecycle_inv w p \<Longrightarrow> pc p = Resident \<Longrightarrow>
     handlers p = [SIGINT, SIGTERM] \<and> calls p = boot_calls"
  by (auto simp add: lifecycle_inv_def)

lemma shutdown_from_Resident:
  assumes "pc p = Resident" and "handlers p = [SIGINT, SIGTERM]"
  shows "trace (resume w (deliver w (Signal s) p)) = trace p @ shutdown_events w"
    and "calls (resume w (deliver w (Signal s) p)) = calls p @ [McpStop]"
    and "exit_code (resume w (deliver w (Signal s) p)) = shutdown_exit w"
  using assms
  by (cases s; cases "mcp_stop w";
      simp add: deliver_def live_def resume_def on_SIGINT_def on_SIGTERM_def
        after_stop_SIGINT_def after_stop_SIGTERM_def on_unhandledRejection_def
        shutdown_events_def shutdown_exit_def exit_code_def Let_def)+

lemma count_list_replicate_same: "count_list (replicate n x) x = n"
  by (induction n) simp_all

lemma step_Deliver: "step w p (Deliver i) = deliver w i p"
  by (simp add: step_def)

lemma step_Settle: "step w p Settle = resume w p"
  by (simp add: step_def)

lemma deliver_signal_awaits_stop:
  assumes "handlers p = [SIGINT, SIGTERM]"
    and "pc p = Resident \<or> (\<exists>s'. pc p = AtStop s')"
    and "\<not> throws_sync (mcp_stop w)"
  shows "pc (deliver w (Signal s) p) = AtStop s"
    and "handlers (deliver w (Signal s) p) = handlers p"
    and "calls (deliver w (Signal s) p) = calls p @ [McpStop]"
  using assms
  by (cases s; cases "mcp_stop w";
      auto simp add: deliver_def live_def on_SIGINT_def on_SIGTERM_def Let_def)+

lemma deliver_signals_await_stop:
  assumes "handlers p = [SIGINT, SIGTERM]"
    and "pc p = Resident \<or> (\<exists>s'. pc p = AtStop s')"
    and "\<not> throws_sync (mcp_stop w)"
  shows "handlers (foldl (step w) p (map (\<lambda>x. Deliver (Signal x)) ss)) = [SIGINT, SIGTERM] \<and>
         (pc (foldl (step w) p (map (\<lambda>x. Deliver (Signal x)) ss)) = Resident \<or>
          (\<exists>s'. pc (foldl (step w) p (map (\<lambda>x. Deliver (Signal x)) ss)) = AtStop s')) \<and>
         calls (foldl (step w) p (map (\<lambda>x. Deliver (Signal x)) ss)) =
           calls p @ replicate (length ss) McpStop"
proof (induction ss rule: rev_induct)
  case Nil
  from assms show ?case by simp
next
  case (snoc s ss)
  let ?q = "foldl (step w) p (map (\<lambda>x. Deliver (Signal x)) ss)"
  from snoc have h: "handlers ?q = [SIGINT, SIGTERM]"
    and c: "pc ?q = Resident \<or> (\<exists>s'. pc ?q = AtStop s')"
    and k: "calls ?q = calls p @ replicate (length ss) McpStop"
    by simp_all
  note d = deliver_signal_awaits_stop [OF h c assms(3), of s]
  from d h k show ?case
    by (simp add: step_Deliver replicate_append_same)
qed

lemma resume_AtStop:
  assumes "pc q = AtStop s'" and "\<not> throws_sync (mcp_stop w)"
  shows "calls (resume w q) = calls q" and "exit_code (resume w q) = shutdown_exit w"
  using assms
  by (cases s'; cases "mcp_stop w";
      simp add: resume_def after_stop_SIGINT_def after_stop_SIGTERM_def
        on_unhandledRejection_def shutdown_exit_def exit_code_def)+

lemma deliver_signal_stop_throws:
  assumes "handlers p = [SIGINT, SIGTERM]" and "pc p = Resident"
    and "throws_sync (mcp_stop w)"
  shows "pc (deliver w (Signal s) p) = Exited 1"
    and "calls (deliver w (Signal s) p) = calls p @ [McpStop]"
    and "shutdown_exit w = Some 1"
  using assms
  by (cases s; cases "mcp_stop w";
      simp add: deliver_def live_def on_SIGINT_def on_SIGTERM_def on_unhandledRejection_def
        shutdown_exit_def Let_def)+

lemma signals_from_Resident:
  assumes "pc p = Resident" and "handlers p = [SIGINT, SIGTERM]"
  shows "calls (foldl (step w) p (map (\<lambda>x. Deliver (Signal x)) (s # ss) @ [Settle])) =
           calls p @ replicate (if throws_sync (mcp_stop w) then 1 else 1 + length ss) McpStop"
    and "exit_code (foldl (step w) p (map (\<lambda>x. Deliver (Signal x)) (s # ss) @ [Settle])) =
           shutdown_exit w"
proof -
  let ?r = "foldl (step w) p (map (\<lambda>x. Deliver (Signal x)) (s # ss) @ [Settle])"
  have "calls ?r =
      calls p @ replicate (if throws_sync (mcp_stop w) then 1 else 1 + length ss) McpStop \<and>
    exit_code ?r = shutdown_exit w"
  proof (cases "throws_sync (mcp_stop w)")
    case True
    note d = deliver_signal_stop_throws(1,2) [OF assms(2,1) True, of s]
    note e = deliver_signal_stop_throws(3) [OF assms(2,1) True]
    have "?r = foldl (step w) (deliver w (Signal s) p)
        (map (\<lambda>x. Deliver (Signal x)) ss @ [Settle])"
      by (simp add: step_Deliver)
    also from d(1) have "\<dots> = deliver w (Signal s) p"
      by (rule foldl_step_Exited)
    finally have "?r = deliver w (Signal s) p" .
    with d e True show ?thesis by (simp add: exit_code_def)
  next
    case False
    let ?q = "foldl (step w) p (map (\<lambda>x. Deliver (Signal x)) (s # ss))"
    from assms have c: "pc p = Resident \<or> (\<exists>s'. pc p = AtStop s')" by simp
    note first = deliver_signal_awaits_stop [OF assms(2) c False, of s]
    from first have c1: "pc (deliver w (Signal s) p) = Resident \<or>
        (\<exists>s'. pc (deliver w (Signal s) p) = AtStop s')"
      and h1: "handlers (deliver w (Signal s) p) = [SIGINT, SIGTERM]"
      using assms(2) by simp_all
    from deliver_signals_await_stop [OF h1 c1 False, of ss] first(3)
    have k: "calls ?q = calls p @ replicate (1 + length ss) McpStop"
      and a: "pc ?q = Resident \<or> (\<exists>s'. pc ?q = AtStop s')"
      by (simp_all add: step_Deliver replicate_append_same)
    have "pc ?q \<noteq> Resident"
    proof (cases ss rule: rev_cases)
      case Nil
      with first(1) show ?thesis by (simp add: step_Deliver)
    next
      case (snoc ss' s'')
      let ?m = "foldl (step w) (deliver w (Signal s) p) (map (\<lambda>x. Deliver (Signal x)) ss')"
      from deliver_signals_await_stop [OF h1 c1 False, of ss']
      have hm: "handlers ?m = [SIGINT, SIGTERM]"
        and cm: "pc ?m = Resident \<or> (\<exists>s'. pc ?m = AtStop s')"
        by simp_all
      from deliver_signal_awaits_stop(1) [OF hm cm False, of s''] snoc
      show ?thesis by (simp add: step_Deliver)
    qed
    with a obtain s' where "pc ?q = AtStop s'" by blast
    from resume_AtStop [OF this False] k False show ?thesis
      by (simp add: step_Settle)
  qed
  then show "calls ?r =
      calls p @ replicate (if throws_sync (mcp_stop w) then 1 else 1 + length ss) McpStop"
    and "exit_code ?r = shutdown_exit w"
    by simp_all
qed

text \<open>
  C1, as amended.  In every state of every execution in which the process is in the
  Running state: an interrupt or termination signal, with no further signal before
  \<open>stop\<close> has settled, makes the process write the shutdown notice and call \<open>stop\<close>
  exactly once.  Every further signal that arrives before \<open>stop\<close> has settled runs its
  listener too and calls \<open>stop\<close> once more, so that after the signals \<open>s # ss\<close>
  there are \<open>1 + length ss\<close> calls; only when \<open>stop\<close> throws has the first signal
  ended the process already, and there is one call.  In each case the process exits with
  code 0 when \<open>stop\<close> resolves.  When \<open>stop\<close> rejects or throws, nothing catches the
  error: the listener for unhandled rejections writes its diagnostic and the process
  exits with code 1.  When \<open>stop\<close> never settles the process does not exit.
\<close>

theorem signal_in_running_stops_once:
  assumes "lifecycle_of (pc (exec w as)) = Running"
  shows "stop_calls (resume w (deliver w (Signal s) (exec w as))) = 1 \<and>
         exit_code (resume w (deliver w (Signal s) (exec w as))) = shutdown_exit w \<and>
         trace (resume w (deliver w (Signal s) (exec w as))) =
           trace (exec w as) @ shutdown_events w \<and>
         stop_calls (exec w (as @ map (\<lambda>x. Deliver (Signal x)) (s # ss) @ [Settle])) =
           (if throws_sync (mcp_stop w) then 1 else 1 + length ss) \<and>
         exit_code (exec w (as @ map (\<lambda>x. Deliver (Signal x)) (s # ss) @ [Settle])) =
           shutdown_exit w"
proof -
  from assms have r: "pc (exec w as) = Resident" by (simp add: Running_iff)
  have "lifecycle_inv w (exec w as)" by (rule inv_exec)
  with r have h: "handlers (exec w as) = [SIGINT, SIGTERM]"
    and c: "calls (exec w as) = boot_calls"
    by (simp_all add: inv_Resident)
  from shutdown_from_Resident(2) [OF r h] c
  have one: "stop_calls (resume w (deliver w (Signal s) (exec w as))) = 1"
    by (simp add: stop_calls_def boot_calls_def)
  from signals_from_Resident(1) [OF r h, of w s ss] c
  have many: "stop_calls (exec w (as @ map (\<lambda>x. Deliver (Signal x)) (s # ss) @ [Settle])) =
      (if throws_sync (mcp_stop w) then 1 else 1 + length ss)"
    by (simp add: exec_append stop_calls_def boot_calls_def count_list_replicate_same)
  from signals_from_Resident(2) [OF r h, of w s ss]
  have code: "exit_code (exec w (as @ map (\<lambda>x. Deliver (Signal x)) (s # ss) @ [Settle])) =
      shutdown_exit w"
    by (simp add: exec_append)
  from one many code shutdown_from_Resident(1,3) [OF r h] show ?thesis by simp
qed

theorem signal_in_running_stops_once_witness:
  "lifecycle_of (pc (exec w_ok boot_schedule)) = Running \<and>
   stop_calls (resume w_ok (deliver w_ok (Signal SIGTERM) (exec w_ok boot_schedule))) = 1 \<and>
   exit_code (resume w_ok (deliver w_ok (Signal SIGTERM) (exec w_ok boot_schedule))) = Some 0 \<and>
   stop_calls
     (exec w_ok
        (boot_schedule @ map (\<lambda>x. Deliver (Signal x)) [SIGTERM, SIGINT] @ [Settle])) = 2 \<and>
   exit_code
     (exec w_ok
        (boot_schedule @ map (\<lambda>x. Deliver (Signal x)) [SIGTERM, SIGINT] @ [Settle])) = Some 0"
proof -
  have h: "lifecycle_of (pc (exec w_ok boot_schedule)) = Running"
    by (simp add: eval_defs)
  have e: "shutdown_exit w_ok = Some 0"
    by (simp add: shutdown_exit_def w_ok_def)
  have t: "\<not> throws_sync (mcp_stop w_ok)"
    by (simp add: w_ok_def)
  from signal_in_running_stops_once [OF h, of SIGTERM "[SIGINT]"] e t h
  show ?thesis by simp
qed

text \<open>
  The claim C1 as stated fails twice.  With a \<open>stop\<close> whose promise rejects, the
  process is in the Running state after start-up, and an interrupt signal ends it with
  exit code 1.  And with a \<open>stop\<close> that resolves, a second signal that arrives before
  \<open>stop\<close> has settled calls \<open>stop\<close> a second time.
\<close>

theorem rejected_stop_exits_1_counterexample:
  "lifecycle_of (pc (run w_stop_rejects)) = Running \<and>
   exit_code
     (exec w_stop_rejects
        (boot_schedule @ [Deliver (Signal SIGINT), Settle])) = Some 1 \<and>
   stop_calls
     (exec w_stop_rejects
        (boot_schedule @ [Deliver (Signal SIGINT), Settle])) = 1 \<and>
   lifecycle_of (pc (run w_ok)) = Running \<and>
   stop_calls
     (exec w_ok
        (boot_schedule @ [Deliver (Signal SIGINT), Deliver (Signal SIGTERM), Settle])) = 2 \<and>
   exit_code
     (exec w_ok
        (boot_schedule @ [Deliver (Signal SIGINT), Deliver (Signal SIGTERM), Settle])) = Some 0"
  by (simp add: eval_defs w_stop_rejects_def exit_code_def stop_calls_def calls_def)






lemma before_running_cases:
  "before_running p \<longleftrightarrow>
     pc p = Loading \<or> (\<exists>d. pc p = AtImportFs d) \<or> (\<exists>d. pc p = AtImportPath d) \<or>
     pc p = AtInit \<or> pc p = AtStart"
  by (cases "pc p") (simp_all add: before_running_def)

lemma inv_before_running:
  "lifecycle_inv w p \<Longrightarrow> before_running p \<Longrightarrow> handlers p = [] \<and> McpStop \<notin> set (calls p)"
  by (auto simp add: lifecycle_inv_def before_running_cases)

lemma inv_installed:
  "lifecycle_inv w p \<Longrightarrow> handlers p \<noteq> [] \<Longrightarrow>
     mcp_start w = Resolves \<and> McpStart \<in> set (calls p) \<and> \<not> before_running p"
  by (auto simp add: lifecycle_inv_def before_running_cases)

lemma count_list_0: "x \<notin> set xs \<Longrightarrow> count_list xs x = 0"
  by (induction xs) auto

text \<open>
  C7.  In every state of every execution: when a listener for SIGINT or SIGTERM is
  installed, \<open>start\<close> has been called and has resolved, and the process is past the
  Validating, Initializing and Starting states.  While the process is in one of these
  three states no such listener is installed; a signal delivered then runs no code of
  the process (the default action of the signal ends it), and \<open>stop\<close> has not been
  called, neither before nor by that signal.
\<close>

theorem shutdown_listeners_only_after_start:
  "(handlers (exec w as) \<noteq> [] \<longrightarrow>
      mcp_start w = Resolves \<and> McpStart \<in> set (calls (exec w as)) \<and>
      \<not> before_running (exec w as)) \<and>
   (before_running (exec w as) \<longrightarrow>
      handlers (exec w as) = [] \<and>
      deliver w (Signal s) (exec w as) = (exec w as)\<lparr>pc := Killed s\<rparr> \<and>
      trace (deliver w (Signal s) (exec w as)) = trace (exec w as) \<and>
      stop_calls (deliver w (Signal s) (exec w as)) = 0)"
proof -
  have i: "lifecycle_inv w (exec w as)" by (rule inv_exec)
  have "handlers (exec w as) = [] \<and>
      deliver w (Signal s) (exec w as) = (exec w as)\<lparr>pc := Killed s\<rparr> \<and>
      trace (deliver w (Signal s) (exec w as)) = trace (exec w as) \<and>
      stop_calls (deliver w (Signal s) (exec w as)) = 0"
    if b: "before_running (exec w as)"
  proof -
    from inv_before_running [OF i b]
    have h: "handlers (exec w as) = []" and c: "McpStop \<notin> set (calls (exec w as))"
      by simp_all
    from b have l: "live (exec w as)"
      by (auto simp add: before_running_cases live_def)
    from h l have d: "deliver w (Signal s) (exec w as) = (exec w as)\<lparr>pc := Killed s\<rparr>"
      by (simp add: deliver_def)
    from c have "stop_calls ((exec w as)\<lparr>pc := Killed s\<rparr>) = 0"
      by (simp add: stop_calls_def count_list_0)
    with h d show ?thesis by simp
  qed
  with inv_installed [OF i] show ?thesis by blast
qed

theorem shutdown_listeners_only_after_start_witness:
  "before_running (exec w_ok [Settle, Settle]) \<and>
   handlers (exec w_ok [Settle, Settle]) = [] \<and>
   trace (deliver w_ok (Signal SIGTERM) (exec w_ok [Settle, Settle])) =
     trace (exec w_ok [Settle, Settle]) \<and>
   stop_calls (deliver w_ok (Signal SIGTERM) (exec w_ok [Settle, Settle])) = 0 \<and>
   handlers (exec w_ok boot_schedule) \<noteq> [] \<and>
   mcp_start w_ok = Resolves \<and>
   McpStart \<in> set (calls (exec w_ok boot_schedule))"
proof -
  have b: "before_running (exec w_ok [Settle, Settle])"
    by (simp add: eval_defs before_running_def)
  have h: "handlers (exec w_ok boot_schedule) \<noteq> []"
    by (simp add: eval_defs)
  from shutdown_listeners_only_after_start [of w_ok "[Settle, Settle]" SIGTERM] b
  have 1: "handlers (exec w_ok [Settle, Settle]) = []"
    and 2: "trace (deliver w_ok (Signal SIGTERM) (exec w_ok [Settle, Settle])) =
      trace (exec w_ok [Settle, Settle])"
    and 3: "stop_calls (deliver w_ok (Signal SIGTERM) (exec w_ok [Settle, Settle])) = 0"
    by blast+
  from shutdown_listeners_only_after_start [of w_ok boot_schedule SIGINT] h
  have 4: "mcp_start w_ok = Resolves"
    and 5: "McpStart \<in> set (calls (exec w_ok boot_schedule))"
    by blast+
  from b 1 2 3 h 4 5 show ?thesis by blast
qed

subsection \<open>How the start-up sequence ends\<close>

lemma pc_boot: "pc (boot w) = Exited 1 \<or> (\<exists>d. pc (boot w) = AtImportFs d)"
  by (simp add: boot_def main_begin_def Let_def split: option.split)

lemma pc_begin_init:
  "pc (begin_init w p) = Exited 1 \<or> pc (begin_init w p) = AtInit"
  by (simp add: begin_init_def main_catch_def Let_def split: option.split outcome.split)

lemma pc_resume_AtImportPath:
  assumes "pc p = AtImportPath d"
  shows "pc (resume w p) = Exited 1 \<or> pc (resume w p) = AtInit"
proof -
  from pc_validate_dir [of w d p] show ?thesis
  proof
    assume "pc (validate_dir w d p) = pc p"
    with assms pc_begin_init [of w "validate_dir w d p"] show ?thesis
      by (simp add: resume_def Let_def)
  next
    assume "pc (validate_dir w d p) = Exited 1"
    with assms show ?thesis by (simp add: resume_def Let_def)
  qed
qed

lemma pc_resume_AtInit:
  assumes "pc p = AtInit"
  shows "pc (resume w p) = Exited 1 \<or> pc (resume w p) = AtStart \<or>
         (pc (resume w p) = AtInit \<and>
          (initializeWithoutCluster w = NeverSettles \<or>
           (\<exists>e. initializeWithoutCluster w = ThrowsSync e)))"
  using assms
  by (simp add: resume_def after_init_def begin_start_def main_catch_def Let_def
      split: option.split outcome.split)

lemma pc_resume_AtStart:
  assumes "pc p = AtStart"
  shows "pc (resume w p) = Exited 1 \<or> pc (resume w p) = Resident \<or>
         (pc (resume w p) = AtStart \<and>
          (mcp_start w = NeverSettles \<or> (\<exists>e. mcp_start w = ThrowsSync e)))"
  using assms
  by (simp add: resume_def after_start_def main_catch_def Let_def split: outcome.split)

lemma inv_no_sync_throw:
  "lifecycle_inv w p \<Longrightarrow> pc p = AtInit \<Longrightarrow> \<not> throws_sync (initializeWithoutCluster w)"
  "lifecycle_inv w p \<Longrightarrow> pc p = AtStart \<Longrightarrow> \<not> throws_sync (mcp_start w)"
  by (simp_all add: lifecycle_inv_def)

lemma handlers_resume: "handlers (resume w p) = handlers p \<or> pc (resume w p) = Resident"
proof (cases "pc p")
  case (AtImportPath d)
  have "handlers (validate_dir w d p) = handlers p"
    by (simp add: validate_dir_def probe_def fs_defs Let_def split: option.split node.split)
  moreover have "handlers (begin_init w q) = handlers q" for q
    by (simp add: begin_init_def main_catch_def Let_def split: option.split outcome.split)
  ultimately show ?thesis using AtImportPath
    by (simp add: resume_def Let_def split: pc.split)
next
  case AtInit
  then show ?thesis
    by (simp add: resume_def after_init_def begin_start_def main_catch_def Let_def
        split: option.split outcome.split)
next
  case AtStart
  then show ?thesis
    by (simp add: resume_def after_start_def main_catch_def Let_def split: outcome.split)
next
  case (AtStop s)
  then show ?thesis
    by (cases s)
      (simp_all add: resume_def after_stop_SIGINT_def after_stop_SIGTERM_def
        on_unhandledRejection_def split: outcome.split)
qed (simp_all add: resume_def)

text \<open>
  The states of the start-up sequence, one after each settled await.  \<open>stage w k\<close> is
  the state after \<open>k\<close> of them.
\<close>

lemma stage_inv: "lifecycle_inv w ((resume w ^^ k) (boot w))"
  by (induction k) (simp_all add: inv_boot inv_resume)

lemma run_stages: "run w = (resume w ^^ 4) (boot w)"
  by (simp add: run_unfold numeral_eq_Suc)

lemma stage_handlers:
  "handlers ((resume w ^^ k) (boot w)) = [] \<or> pc ((resume w ^^ k) (boot w)) = Resident"
proof (induction k)
  case 0
  show ?case by (simp add: boot_def main_begin_def Let_def split: option.split)
next
  case (Suc k)
  from Suc.IH show ?case
  proof
    assume "handlers ((resume w ^^ k) (boot w)) = []"
    with handlers_resume [of w "(resume w ^^ k) (boot w)"] show ?thesis by auto
  next
    assume "pc ((resume w ^^ k) (boot w)) = Resident"
    then show ?thesis by (simp add: resume_Resident)
  qed
qed

lemma hung_resume: "hung w p \<Longrightarrow> resume w p = p"
  by (auto simp add: hung_def resume_def after_init_def after_start_def)

lemma run_outcome:
  "pc (run w) = Resident \<or> hung w (run w) \<or> pc (run w) = Exited 1"
proof -
  let ?s = "\<lambda>k. (resume w ^^ k) (boot w)"
  have s0: "pc (?s 0) = Exited 1 \<or> (\<exists>d. pc (?s 0) = AtImportFs d)"
    using pc_boot [of w] by simp
  have s1: "pc (?s 1) = Exited 1 \<or> (\<exists>d. pc (?s 1) = AtImportPath d)"
    using s0 by (auto simp add: resume_Exited resume_def)
  have s2: "pc (?s 2) = Exited 1 \<or> pc (?s 2) = AtInit"
  proof -
    have "?s 2 = resume w (?s 1)" by (simp add: numeral_2_eq_2)
    with s1 pc_resume_AtImportPath [of "?s 1" _ w] show ?thesis
      by (auto simp add: resume_Exited)
  qed
  have s3: "pc (?s 3) = Exited 1 \<or> pc (?s 3) = AtStart \<or> hung w (?s 3)"
  proof -
    have e: "?s 3 = resume w (?s 2)" by (simp add: numeral_3_eq_3 numeral_2_eq_2)
    from s2 show ?thesis
    proof
      assume "pc (?s 2) = Exited 1"
      with e show ?thesis by (simp add: resume_Exited)
    next
      assume a: "pc (?s 2) = AtInit"
      have "\<not> throws_sync (initializeWithoutCluster w)"
        using stage_inv [of w 2] a by (rule inv_no_sync_throw)
      with pc_resume_AtInit [OF a, of w] e show ?thesis
        by (auto simp add: hung_def)
    qed
  qed
  have s4: "pc (?s 4) = Exited 1 \<or> pc (?s 4) = Resident \<or> hung w (?s 4)"
  proof -
    have e: "?s 4 = resume w (?s 3)" by (simp add: numeral_eq_Suc)
    from s3 show ?thesis
    proof (elim disjE)
      assume "pc (?s 3) = Exited 1"
      with e show ?thesis by (simp add: resume_Exited)
    next
      assume a: "pc (?s 3) = AtStart"
      have "\<not> throws_sync (mcp_start w)"
        using stage_inv [of w 3] a by (rule inv_no_sync_throw)
      with pc_resume_AtStart [OF a, of w] e show ?thesis
        by (auto simp add: hung_def)
    next
      assume "hung w (?s 3)"
      with e show ?thesis by (simp add: hung_resume)
    qed
  qed
  then show ?thesis by (auto simp add: run_stages)
qed

lemma run_inv: "lifecycle_inv w (run w)"
  by (simp add: run_def inv_exec)

lemma exec2_preflight:
  "resume w (resume w (boot w)) =
     (case pc (preflight w) of Exited n \<Rightarrow> preflight w | _ \<Rightarrow> begin_init w (preflight w))"
proof -
  from pc_boot [of w] show ?thesis
  proof
    assume "pc (boot w) = Exited 1"
    then show ?thesis by (simp add: preflight_def resume_Exited)
  next
    assume "\<exists>d. pc (boot w) = AtImportFs d"
    then obtain d where d: "pc (boot w) = AtImportFs d" by blast
    then have p: "preflight w = validate_dir w d ((boot w)\<lparr>pc := AtImportPath d\<rparr>)"
      by (simp add: preflight_def)
    from d have "resume w (resume w (boot w)) =
        (case pc (validate_dir w d ((boot w)\<lparr>pc := AtImportPath d\<rparr>)) of
           Exited n \<Rightarrow> validate_dir w d ((boot w)\<lparr>pc := AtImportPath d\<rparr>)
         | _ \<Rightarrow> begin_init w (validate_dir w d ((boot w)\<lparr>pc := AtImportPath d\<rparr>)))"
      by (simp add: resume_def Let_def)
    then show ?thesis by (simp only: p)
  qed
qed

lemma run_preflight:
  assumes "pc (preflight w) = Exited n"
  shows "run w = preflight w"
proof -
  from assms have "resume w (resume w (boot w)) = preflight w"
    by (simp add: exec2_preflight)
  with assms show ?thesis by (simp add: run_unfold resume_Exited)
qed

lemma pc_preflight:
  "pc (preflight w) = Exited 1 \<or> (\<exists>d. pc (preflight w) = AtImportPath d)"
proof -
  from pc_boot [of w] show ?thesis
  proof
    assume "pc (boot w) = Exited 1"
    then show ?thesis by (simp add: preflight_def)
  next
    assume "\<exists>d. pc (boot w) = AtImportFs d"
    then obtain d where d: "pc (boot w) = AtImportFs d" by blast
    with pc_validate_dir [of w d "(boot w)\<lparr>pc := AtImportPath d\<rparr>"] show ?thesis
      by (auto simp add: preflight_def)
  qed
qed

lemma run_init_failure:
  assumes "failure_of (initializeWithoutCluster w) = Some e"
  shows "pc (run w) = Exited 1"
proof -
  have i: "lifecycle_inv w (run w)" by (rule run_inv)
  from assms have n: "initializeWithoutCluster w \<noteq> Resolves"
    and m: "initializeWithoutCluster w \<noteq> NeverSettles"
    by auto
  from run_outcome [of w] show ?thesis
  proof (elim disjE)
    assume "pc (run w) = Resident"
    with i n show ?thesis by (auto simp add: lifecycle_inv_def)
  next
    assume "hung w (run w)"
    with i n m show ?thesis by (auto simp add: lifecycle_inv_def hung_def boot_calls_def)
  qed
qed

lemma run_start_failure:
  assumes "failure_of (mcp_start w) = Some e" and "McpStart \<in> set (calls (run w))"
  shows "pc (run w) = Exited 1"
proof -
  have i: "lifecycle_inv w (run w)" by (rule run_inv)
  from assms(1) have n: "mcp_start w \<noteq> Resolves" and m: "mcp_start w \<noteq> NeverSettles"
    by auto
  from run_outcome [of w] show ?thesis
  proof (elim disjE)
    assume "pc (run w) = Resident"
    with i n show ?thesis by (auto simp add: lifecycle_inv_def)
  next
    assume "hung w (run w)"
    with i m assms(2) show ?thesis by (auto simp add: lifecycle_inv_def hung_def)
  qed
qed

lemma inv_no_stop:
  "lifecycle_inv w p \<Longrightarrow> handlers p = [] \<Longrightarrow> stop_calls p = 0"
  by (simp add: lifecycle_inv_def stop_calls_def count_list_0)

lemma inv_exit_1:
  "lifecycle_inv w p \<Longrightarrow> handlers p = [] \<Longrightarrow> pc p = Exited n \<Longrightarrow> n = 1"
  by (simp add: lifecycle_inv_def)

lemma inv_never_constructed:
  "lifecycle_inv w p \<Longrightarrow> initializeWithoutCluster w \<noteq> Resolves \<Longrightarrow>
     NewMCPServer \<notin> set (calls p) \<and> McpStart \<notin> set (calls p)"
  by (auto simp add: lifecycle_inv_def)

text \<open>
  C3.  When \<open>initializeWithoutCluster\<close> fails (it throws, or its promise rejects), then
  in every execution, whatever external events arrive, the protocol server is never
  constructed and its \<open>start\<close> is never called; and the start-up sequence ends with the
  process exited with code 1.
\<close>

theorem failed_initialization_never_starts_server:
  assumes "failure_of (initializeWithoutCluster w) = Some e"
  shows "NewMCPServer \<notin> set (calls (exec w as)) \<and>
         McpStart \<notin> set (calls (exec w as)) \<and>
         exit_code (run w) = Some 1 \<and>
         NewMCPServer \<notin> set (calls (run w)) \<and>
         McpStart \<notin> set (calls (run w))"
proof -
  from assms have n: "initializeWithoutCluster w \<noteq> Resolves" by auto
  have "lifecycle_inv w (exec w as)" by (rule inv_exec)
  from inv_never_constructed [OF this n] inv_never_constructed [OF run_inv n]
    run_init_failure [OF assms]
  show ?thesis by (simp add: exit_code_Some)
qed

theorem failed_initialization_never_starts_server_witness:
  "failure_of (initializeWithoutCluster w_init_rejects) = Some ''Error: no API key'' \<and>
   exit_code (run w_init_rejects) = Some 1 \<and>
   NewMCPServer \<notin> set (calls (run w_init_rejects)) \<and>
   McpStart \<notin> set (calls (run w_init_rejects))"
proof -
  have h: "failure_of (initializeWithoutCluster w_init_rejects) = Some ''Error: no API key''"
    by (simp add: w_ok_def w_init_rejects_def)
  from failed_initialization_never_starts_server [OF h] h show ?thesis by blast
qed

subsection \<open>The checks of the session directory\<close>

lemma preflight_unconfigured:
  "\<not> configured w \<Longrightarrow>
     preflight w = fatal msg_missing (write_stderr [msg_validating] (on_disk w))"
  by (auto simp add: preflight_def boot_def main_begin_def on_disk_def configured_def Let_def
      split: option.splits)

lemma preflight_configured:
  "configured w \<Longrightarrow>
     preflight w =
       validate_dir w (session_dir w)
         ((write_stderr [msg_validating] (on_disk w))\<lparr>pc := AtImportPath (session_dir w)\<rparr>)"
  by (auto simp add: preflight_def boot_def main_begin_def on_disk_def configured_def
      session_dir_def Let_def split: option.splits)

lemma on_disk_simps [simp]:
  "files (on_disk w) = disk w"
  "trace (on_disk w) = []"
  "handlers (on_disk w) = []"
  "calls (on_disk w) = []"
  "stderr_lines (on_disk w) = []"
  "fs_calls (on_disk w) = []"
  by (simp_all add: on_disk_def observation_defs)

lemma calls_preflight: "calls (preflight w) = []"
  by (cases "configured w")
    (simp_all add: preflight_configured preflight_unconfigured validate_dir_def probe_def
      fs_defs Let_def split: option.split node.split)

lemma preflight_report:
  assumes "fault w ExistsSync = None" and "fault w StatSync = None"
  shows "stderr_lines (preflight w) = expected_stderr w"
    and "exit_code (preflight w) = expected_exit w"
    and "validate_spec (configured w) (path_exists w) (is_directory w) (probe_ok w) = Some f
      \<Longrightarrow> set (fs_calls (preflight w)) \<inter> set (later_checks f) = {}"
proof -
  show "stderr_lines (preflight w) = expected_stderr w"
    using assms
    by (cases "configured w")
      (auto simp add: preflight_configured preflight_unconfigured expected_stderr_def
        validate_spec_def path_exists_def is_directory_def probe_ok_def probe_path_def
        validate_dir_def probe_def fs_defs Let_def split: option.split node.split)
  show "exit_code (preflight w) = expected_exit w"
    using assms
    by (cases "configured w")
      (auto simp add: preflight_configured preflight_unconfigured expected_exit_def
        validate_spec_def path_exists_def is_directory_def probe_ok_def probe_path_def
        validate_dir_def probe_def fs_defs Let_def exit_code_def
        split: option.split node.split)
  show "set (fs_calls (preflight w)) \<inter> set (later_checks f) = {}"
    if "validate_spec (configured w) (path_exists w) (is_directory w) (probe_ok w) = Some f"
    using assms that
    by (cases "configured w")
      (auto simp add: preflight_configured preflight_unconfigured
        validate_spec_def path_exists_def is_directory_def probe_ok_def probe_path_def
        validate_dir_def probe_def fs_defs Let_def
        split: option.split node.split if_splits)
qed

text \<open>
  C2, as amended.  On every platform whose existence check and stat check return (neither
  throws), the outcome of the preflight validation is the function \<open>validate_spec\<close> of
  the four components (variable present and not empty, path exists, path is a directory,
  probe file written and deleted), checked in this order: the lines on standard error are
  the progress line followed by the diagnostic of the failure named by \<open>validate_spec\<close>,
  or by the line that the directory was validated; on a failure the process exits with
  code 1, none of the filesystem calls of a later check is made, neither class is touched,
  and the start-up sequence ends there.
\<close>

theorem preflight_follows_validate_spec:
  assumes "fault w ExistsSync = None" and "fault w StatSync = None"
  shows "stderr_lines (preflight w) = expected_stderr w \<and>
         exit_code (preflight w) = expected_exit w \<and>
         (\<forall>f. validate_spec (configured w) (path_exists w) (is_directory w) (probe_ok w) = Some f
            \<longrightarrow> stderr_lines (preflight w) = msg_validating # diagnostic f (session_dir w) \<and>
                exit_code (preflight w) = Some 1 \<and>
                set (fs_calls (preflight w)) \<inter> set (later_checks f) = {} \<and>
                calls (preflight w) = [] \<and>
                run w = preflight w) \<and>
         (validate_spec (configured w) (path_exists w) (is_directory w) (probe_ok w) = None
            \<longrightarrow> stderr_lines (preflight w) = [msg_validating, msg_validated (session_dir w)] \<and>
                exit_code (preflight w) = None)"
proof -
  note r = preflight_report [OF assms]
  have "stderr_lines (preflight w) = msg_validating # diagnostic f (session_dir w) \<and>
      exit_code (preflight w) = Some 1 \<and>
      set (fs_calls (preflight w)) \<inter> set (later_checks f) = {} \<and>
      calls (preflight w) = [] \<and> run w = preflight w"
    if v: "validate_spec (configured w) (path_exists w) (is_directory w) (probe_ok w) = Some f"
    for f
  proof -
    from v r(1) have 1: "stderr_lines (preflight w) = msg_validating # diagnostic f (session_dir w)"
      by (simp add: expected_stderr_def)
    from v r(2) have 2: "exit_code (preflight w) = Some 1"
      by (simp add: expected_exit_def)
    then have "pc (preflight w) = Exited 1" by (simp add: exit_code_Some)
    then have 3: "run w = preflight w" by (rule run_preflight)
    from 1 2 3 r(3) [OF v] calls_preflight [of w] show ?thesis by simp
  qed
  moreover have
    "stderr_lines (preflight w) = [msg_validating, msg_validated (session_dir w)] \<and>
      exit_code (preflight w) = None"
    if "validate_spec (configured w) (path_exists w) (is_directory w) (probe_ok w) = None"
    using that r(1,2) by (simp add: expected_stderr_def expected_exit_def)
  ultimately show ?thesis using r(1,2) by blast
qed

theorem preflight_follows_validate_spec_witness:
  "fault w_file ExistsSync = None \<and>
   fault w_file StatSync = None \<and>
   validate_spec
     (configured w_file)
     (path_exists w_file)
     (is_directory w_file)
     (probe_ok w_file) = Some NotADirectory \<and>
   stderr_lines (preflight w_file) =
     msg_validating # msg_not_a_directory ''/tmp/s'' \<and>
   exit_code (preflight w_file) = Some 1 \<and>
   run w_file =
     preflight w_file"
proof -
  have e: "fault w_file ExistsSync = None"
    and s: "fault w_file StatSync = None"
    by (simp_all add: w_ok_def w_file_def no_fault_def)
  have d: "session_dir w_file = ''/tmp/s''"
    by (simp add: session_dir_def w_ok_def w_file_def)
  have v: "validate_spec
     (configured w_file)
     (path_exists w_file)
     (is_directory w_file)
     (probe_ok w_file) = Some NotADirectory"
    by (simp add: validate_spec_def configured_def path_exists_def is_directory_def
        session_dir_def w_ok_def w_file_def)
  from preflight_follows_validate_spec [OF e s] v d
  have "stderr_lines (preflight w_file) =
      msg_validating # diagnostic NotADirectory ''/tmp/s'' \<and>
    exit_code (preflight w_file) = Some 1 \<and>
    run w_file =
      preflight w_file"
    by auto
  with e s v show ?thesis by simp
qed

text \<open>
  The claim C2 as stated fails where a check throws: the session directory path names an
  existing file, so \<open>validate_spec\<close> names the failure \<open>NotADirectory\<close>, but the stat
  call throws and the process prints the generic failure of the enclosing handler instead
  of the diagnostic of \<open>NotADirectory\<close>.
\<close>

theorem stat_throws_is_not_a_named_failure_counterexample:
  "configured w_file_busy \<and>
   path_exists w_file_busy \<and>
   \<not> is_directory w_file_busy \<and>
   expected_stderr w_file_busy =
     msg_validating # diagnostic NotADirectory ''/tmp/s'' \<and>
   stderr_lines (preflight w_file_busy) =
     [msg_validating,
      msg_validation_failed ''Error: EBUSY: resource busy or locked, stat''] \<and>
   stderr_lines (preflight w_file_busy) \<noteq>
     expected_stderr w_file_busy"
  by (simp add: eval_defs w_file_busy_def w_file_def stat_busy_def configured_def path_exists_def is_directory_def session_dir_def
      expected_stderr_def validate_spec_def stderr_lines_def msg_not_a_directory_def)


lemma probe_written_iff:
  "probe_written w \<longleftrightarrow>
     fault w WriteFileSync = None \<and> disk w (probe_path w) \<noteq> Some Directory"
  by (auto simp add: probe_written_def fs_defs split: option.splits node.splits)

lemma existsSync_on_disk:
  "existsSync w d (on_disk w) = Inr True \<longleftrightarrow> fault w ExistsSync = None \<and> disk w d \<noteq> None"
  "existsSync w d (on_disk w) = Inl e \<longleftrightarrow> fault w ExistsSync = Some e"
  by (auto simp add: existsSync_def split: option.splits)

lemma statSync_on_disk:
  "statSync w d (on_disk w) = Inr Directory \<longleftrightarrow>
     fault w StatSync = None \<and> disk w d = Some Directory"
  by (auto simp add: statSync_def split: option.splits)

lemma statSync_on_disk_throws:
  "disk w d \<noteq> None \<Longrightarrow> statSync w d (on_disk w) = Inl e \<longleftrightarrow> fault w StatSync = Some e"
  by (auto simp add: statSync_def split: option.splits)




text \<open>
  C9.  When the variable is set, the checks report an existing directory, the probe file
  is written, and deleting it throws, the process prints the diagnostic of a directory
  that is not writable and exits with code 1 before anything else is started; the probe
  file, named \<open>.mcp-test-write\<close> inside the session directory and holding \<open>test\<close>,
  is still there.
\<close>

theorem failed_unlink_leaves_probe_file:
  assumes "configured w"
    and "existsSync w (session_dir w) (on_disk w) = Inr True"
    and "statSync w (session_dir w) (on_disk w) = Inr Directory"
    and "probe_written w"
    and "fault w UnlinkSync = Some e"
  shows "stderr_lines (preflight w) = msg_validating # msg_not_writable (session_dir w) \<and>
         exit_code (preflight w) = Some 1 \<and>
         fs_calls (preflight w) = [ExistsSync, StatSync, WriteFileSync, UnlinkSync] \<and>
         files (preflight w) (probe_path w) = Some (File probe_data) \<and>
         probe_path w = path_join w (session_dir w) ''.mcp-test-write'' \<and>
         probe_data = ''test'' \<and>
         calls (preflight w) = [] \<and>
         run w = preflight w"
proof -
  from assms(2) have x: "fault w ExistsSync = None"
    by (simp add: existsSync_on_disk)
  from assms(3) have s: "fault w StatSync = None" and d: "disk w (session_dir w) = Some Directory"
    by (simp_all add: statSync_on_disk)
  from assms(4) have p: "fault w WriteFileSync = None"
      "disk w (path_join w (session_dir w) probe_name) \<noteq> Some Directory"
    by (simp_all add: probe_written_iff probe_path_def)
  have 1: "stderr_lines (preflight w) = msg_validating # msg_not_writable (session_dir w)"
    using assms(1,5) x s d p
    by (auto simp add: preflight_configured validate_dir_def probe_def fs_defs Let_def
        split: option.split node.split)
  have 2: "exit_code (preflight w) = Some 1"
    using assms(1,5) x s d p
    by (auto simp add: preflight_configured validate_dir_def probe_def fs_defs Let_def
        split: option.split node.split)
  have 3: "fs_calls (preflight w) = [ExistsSync, StatSync, WriteFileSync, UnlinkSync]"
    using assms(1,5) x s d p
    by (auto simp add: preflight_configured validate_dir_def probe_def fs_defs Let_def
        split: option.split node.split)
  have 4: "files (preflight w) (probe_path w) = Some (File probe_data)"
    using assms(1,5) x s d p
    by (auto simp add: preflight_configured validate_dir_def probe_def fs_defs Let_def
        probe_path_def split: option.split node.split)
  have 5: "probe_path w = path_join w (session_dir w) ''.mcp-test-write''"
    by (simp add: probe_path_def probe_name_def)
  have 6: "probe_data = ''test''"
    by (simp add: probe_data_def)
  from 2 have "pc (preflight w) = Exited 1" by (simp add: exit_code_Some)
  then have 7: "run w = preflight w" by (rule run_preflight)
  from 1 2 3 4 5 6 7 calls_preflight [of w] show ?thesis by blast
qed

theorem failed_unlink_leaves_probe_file_witness:
  "configured w_unlink_denied \<and>
   probe_written w_unlink_denied \<and>
   fault w_unlink_denied UnlinkSync =
     Some ''Error: EPERM: operation not permitted, unlink'' \<and>
   exit_code (run w_unlink_denied) = Some 1 \<and>
   stderr_lines (run w_unlink_denied) =
     msg_validating # msg_not_writable ''/tmp/s'' \<and>
   files (run w_unlink_denied) ''/tmp/s/.mcp-test-write'' =
     Some (File ''test'')"
proof -
  have c: "configured w_unlink_denied"
    by (simp add: configured_def w_ok_def w_unlink_denied_def unlink_denied_def)
  have d: "session_dir w_unlink_denied = ''/tmp/s''"
    by (simp add: session_dir_def w_ok_def w_unlink_denied_def unlink_denied_def)
  have e: "existsSync w_unlink_denied (session_dir w_unlink_denied) (on_disk w_unlink_denied) = Inr True"
    by (simp add: existsSync_on_disk session_dir_def w_ok_def w_unlink_denied_def
        unlink_denied_def)
  have s: "statSync w_unlink_denied (session_dir w_unlink_denied) (on_disk w_unlink_denied) = Inr Directory"
    by (simp add: statSync_on_disk session_dir_def w_ok_def w_unlink_denied_def unlink_denied_def)
  have t: "probe_path w_unlink_denied = ''/tmp/s/.mcp-test-write''"
    by (simp add: probe_path_def session_dir_def w_ok_def w_unlink_denied_def
        unlink_denied_def posix_join_def probe_name_def)
  have p: "probe_written w_unlink_denied"
    by (simp add: probe_written_iff t) (simp add: w_ok_def w_unlink_denied_def unlink_denied_def)
  have u: "fault w_unlink_denied UnlinkSync =
      Some ''Error: EPERM: operation not permitted, unlink''"
    by (simp add: w_ok_def w_unlink_denied_def unlink_denied_def)
  from failed_unlink_leaves_probe_file [OF c e s p u]
  have r: "run w_unlink_denied = preflight w_unlink_denied"
    and x: "exit_code (preflight w_unlink_denied) = Some 1"
    and l: "stderr_lines (preflight w_unlink_denied) =
      msg_validating # msg_not_writable (session_dir w_unlink_denied)"
    and f: "files (preflight w_unlink_denied)
      (probe_path w_unlink_denied) = Some (File probe_data)"
    by blast+
  from l d have l': "stderr_lines (preflight w_unlink_denied) =
      msg_validating # msg_not_writable ''/tmp/s''"
    by simp
  from f t have f': "files (preflight w_unlink_denied)
      ''/tmp/s/.mcp-test-write'' = Some (File ''test'')"
    by (simp add: probe_data_def)
  from c p u x l' f' show ?thesis by (simp only: r)
qed

lemma generic_failure_differs:
  "msg_validation_failed e \<notin> set (diagnostic f d)"
  by (cases f)
    (simp_all add: msg_validation_failed_def msg_missing_def msg_not_found_def
      msg_not_a_directory_def msg_not_writable_def)

lemma progress_line_differs:
  "msg_validating \<notin> set (diagnostic f d)"
  by (cases f)
    (simp_all add: msg_validating_def msg_missing_def msg_not_found_def
      msg_not_a_directory_def msg_not_writable_def)

text \<open>
  C10.  When the variable is set and the existence check throws, or it reports that the
  path exists and the stat check throws, the exception goes no further than the handler
  that encloses the checks: the process prints the generic line that the validation of the
  session directory failed, with the error, and exits with code 1.  No line of the
  diagnostic of any of the four named failures is printed, no later check is made and
  nothing else is started.
\<close>

theorem throwing_check_is_generic_failure:
  assumes "configured w"
    and "existsSync w (session_dir w) (on_disk w) = Inl e \<or>
         existsSync w (session_dir w) (on_disk w) = Inr True \<and>
         statSync w (session_dir w) (on_disk w) = Inl e"
  shows "stderr_lines (preflight w) = [msg_validating, msg_validation_failed e] \<and>
         exit_code (preflight w) = Some 1 \<and>
         (\<forall>f. set (diagnostic f (session_dir w)) \<inter> set (stderr_lines (preflight w)) = {}) \<and>
         WriteFileSync \<notin> set (fs_calls (preflight w)) \<and>
         UnlinkSync \<notin> set (fs_calls (preflight w)) \<and>
         calls (preflight w) = [] \<and>
         run w = preflight w"
proof -
  have 1: "stderr_lines (preflight w) = [msg_validating, msg_validation_failed e] \<and>
      exit_code (preflight w) = Some 1 \<and>
      WriteFileSync \<notin> set (fs_calls (preflight w)) \<and>
      UnlinkSync \<notin> set (fs_calls (preflight w))"
    using assms(2)
  proof
    assume "existsSync w (session_dir w) (on_disk w) = Inl e"
    then have "fault w ExistsSync = Some e" by (simp add: existsSync_on_disk)
    with assms(1) show ?thesis
      by (simp add: preflight_configured validate_dir_def fs_defs Let_def)
  next
    assume a: "existsSync w (session_dir w) (on_disk w) = Inr True \<and>
         statSync w (session_dir w) (on_disk w) = Inl e"
    then have x: "fault w ExistsSync = None" and d: "disk w (session_dir w) \<noteq> None"
      by (simp_all add: existsSync_on_disk)
    with a have "fault w StatSync = Some e" by (simp add: statSync_on_disk_throws)
    with assms(1) x d show ?thesis
      by (auto simp add: preflight_configured validate_dir_def fs_defs Let_def)
  qed
  then have "pc (preflight w) = Exited 1" by (simp add: exit_code_Some)
  then have 2: "run w = preflight w" by (rule run_preflight)
  from 1 have 3: "set (diagnostic f (session_dir w)) \<inter> set (stderr_lines (preflight w)) = {}"
    for f
    using generic_failure_differs [of e f "session_dir w"]
      progress_line_differs [of f "session_dir w"]
    by auto
  from 1 2 3 calls_preflight [of w] show ?thesis by blast
qed

theorem throwing_check_is_generic_failure_witness:
  "configured w_dir_busy \<and>
   existsSync w_dir_busy (session_dir w_dir_busy) (on_disk w_dir_busy) = Inr True \<and>
   statSync w_dir_busy (session_dir w_dir_busy) (on_disk w_dir_busy) =
     Inl ''Error: EBUSY: resource busy or locked, stat'' \<and>
   stderr_lines (run w_dir_busy) =
     [msg_validating, msg_validation_failed ''Error: EBUSY: resource busy or locked, stat''] \<and>
   exit_code (run w_dir_busy) = Some 1"
proof -
  have c: "configured w_dir_busy"
    by (simp add: configured_def w_ok_def w_dir_busy_def stat_busy_def)
  have e: "existsSync w_dir_busy (session_dir w_dir_busy) (on_disk w_dir_busy) = Inr True"
    by (simp add: existsSync_on_disk session_dir_def w_ok_def w_dir_busy_def stat_busy_def)
  have s: "statSync w_dir_busy (session_dir w_dir_busy) (on_disk w_dir_busy) =
     Inl ''Error: EBUSY: resource busy or locked, stat''"
    by (simp add: statSync_def w_ok_def w_dir_busy_def stat_busy_def)
  from e s have
    "existsSync w_dir_busy (session_dir w_dir_busy) (on_disk w_dir_busy) =
       Inl ''Error: EBUSY: resource busy or locked, stat'' \<or>
     existsSync w_dir_busy (session_dir w_dir_busy) (on_disk w_dir_busy) = Inr True \<and>
     statSync w_dir_busy (session_dir w_dir_busy) (on_disk w_dir_busy) =
       Inl ''Error: EBUSY: resource busy or locked, stat''"
    by blast
  from throwing_check_is_generic_failure [OF c this]
  have "stderr_lines (run w_dir_busy) =
     [msg_validating, msg_validation_failed ''Error: EBUSY: resource busy or locked, stat''] \<and>
   exit_code (run w_dir_busy) = Some 1"
    by simp
  with c e s show ?thesis by blast
qed

lemma preflight_throwing_check_exits:
  assumes "configured w"
    and "existsSync w (session_dir w) (on_disk w) = Inl e \<or>
         existsSync w (session_dir w) (on_disk w) = Inr True \<and>
         statSync w (session_dir w) (on_disk w) = Inl e"
  shows "exit_code (preflight w) = Some 1"
  using assms(2)
proof
  assume "existsSync w (session_dir w) (on_disk w) = Inl e"
  then have "fault w ExistsSync = Some e" by (simp add: existsSync_on_disk)
  with assms(1) show ?thesis
    by (simp add: preflight_configured validate_dir_def fs_defs Let_def)
next
  assume a: "existsSync w (session_dir w) (on_disk w) = Inr True \<and>
       statSync w (session_dir w) (on_disk w) = Inl e"
  then have x: "fault w ExistsSync = None" and d: "disk w (session_dir w) \<noteq> None"
    by (simp_all add: existsSync_on_disk)
  with a have "fault w StatSync = Some e" by (simp add: statSync_on_disk_throws)
  with assms(1) x d show ?thesis
    by (auto simp add: preflight_configured validate_dir_def fs_defs Let_def)
qed

text \<open>
  C4.  In every execution, whatever external events arrive: as long as no shutdown
  listener is installed (the Running state has not been reached), \<open>stop\<close> has not been
  called, and if the process has exited its exit code is 1.  The start-up sequence on its
  own ends in one of three ways: the process is Running, or it awaits a promise that never
  settles, or it has exited with code 1 without a call of \<open>stop\<close>.  Every fatal error
  before the Running state ends it the third way: a session directory variable that is
  unset or empty; a path that does not exist, is not a directory or is not writable (each
  failure that \<open>validate_spec\<close> names, when the checks return); a check of the path
  that throws; an initialization that fails; and a start that fails.
\<close>

theorem fatal_before_running_exits_1:
  "(handlers (exec w as) = [] \<longrightarrow>
      stop_calls (exec w as) = 0 \<and> (\<forall>n. exit_code (exec w as) = Some n \<longrightarrow> n = 1)) \<and>
   (lifecycle_of (pc (run w)) = Running \<or> hung w (run w) \<or>
      exit_code (run w) = Some 1 \<and> stop_calls (run w) = 0) \<and>
   (\<forall>n. exit_code (preflight w) = Some n \<longrightarrow>
      n = 1 \<and> run w = preflight w \<and> stop_calls (run w) = 0) \<and>
   (\<forall>e. failure_of (initializeWithoutCluster w) = Some e \<longrightarrow>
      exit_code (run w) = Some 1 \<and> stop_calls (run w) = 0) \<and>
   (\<forall>e. failure_of (mcp_start w) = Some e \<longrightarrow> McpStart \<in> set (calls (run w)) \<longrightarrow>
      exit_code (run w) = Some 1 \<and> stop_calls (run w) = 0) \<and>
   (\<not> configured w \<longrightarrow> exit_code (run w) = Some 1 \<and> stop_calls (run w) = 0) \<and>
   (\<forall>f. fault w ExistsSync = None \<longrightarrow> fault w StatSync = None \<longrightarrow>
      validate_spec (configured w) (path_exists w) (is_directory w) (probe_ok w) = Some f \<longrightarrow>
      exit_code (run w) = Some 1 \<and> stop_calls (run w) = 0) \<and>
   (\<forall>e. configured w \<longrightarrow>
      (existsSync w (session_dir w) (on_disk w) = Inl e \<or>
       existsSync w (session_dir w) (on_disk w) = Inr True \<and>
       statSync w (session_dir w) (on_disk w) = Inl e) \<longrightarrow>
      exit_code (run w) = Some 1 \<and> stop_calls (run w) = 0)"
proof -
  have i: "lifecycle_inv w (exec w as)" by (rule inv_exec)
  have a: "handlers (exec w as) = [] \<longrightarrow>
      stop_calls (exec w as) = 0 \<and> (\<forall>n. exit_code (exec w as) = Some n \<longrightarrow> n = 1)"
    using inv_no_stop [OF i] inv_exit_1 [OF i] by (auto simp add: exit_code_Some)
  have x: "stop_calls (run w) = 0" if "pc (run w) = Exited 1"
  proof -
    from stage_handlers [of 4 w] that have "handlers (run w) = []"
      by (auto simp add: run_stages)
    with run_inv show ?thesis by (rule inv_no_stop)
  qed
  have b: "lifecycle_of (pc (run w)) = Running \<or> hung w (run w) \<or>
      exit_code (run w) = Some 1 \<and> stop_calls (run w) = 0"
    using run_outcome [of w] x by (auto simp add: exit_code_Some)
  have c: "n = 1 \<and> run w = preflight w \<and> stop_calls (run w) = 0"
    if "exit_code (preflight w) = Some n" for n
  proof -
    from that have p: "pc (preflight w) = Exited n" by (simp add: exit_code_Some)
    with pc_preflight [of w] have n: "n = 1" by auto
    from run_preflight [OF p] have r: "run w = preflight w" .
    with p n have "pc (run w) = Exited 1" by simp
    with x n r show ?thesis by simp
  qed
  have d: "exit_code (run w) = Some 1 \<and> stop_calls (run w) = 0"
    if "failure_of (initializeWithoutCluster w) = Some e" for e
    using run_init_failure [OF that] x by (simp add: exit_code_Some)
  have e: "exit_code (run w) = Some 1 \<and> stop_calls (run w) = 0"
    if "failure_of (mcp_start w) = Some e" and "McpStart \<in> set (calls (run w))" for e
    using run_start_failure [OF that] x by (simp add: exit_code_Some)
  have f: "exit_code (run w) = Some 1 \<and> stop_calls (run w) = 0" if "\<not> configured w"
  proof -
    from that have p: "exit_code (preflight w) = Some 1"
      by (simp add: preflight_unconfigured)
    from c [OF p] p show ?thesis by auto
  qed
  have g: "exit_code (run w) = Some 1 \<and> stop_calls (run w) = 0"
    if "fault w ExistsSync = None" and "fault w StatSync = None"
      and "validate_spec (configured w) (path_exists w) (is_directory w) (probe_ok w) = Some f"
    for f
  proof -
    from preflight_report(2) [OF that(1,2)] that(3)
    have p: "exit_code (preflight w) = Some 1"
      by (simp add: expected_exit_def)
    from c [OF p] p show ?thesis by auto
  qed
  have h: "exit_code (run w) = Some 1 \<and> stop_calls (run w) = 0"
    if "configured w"
      and "existsSync w (session_dir w) (on_disk w) = Inl e \<or>
        existsSync w (session_dir w) (on_disk w) = Inr True \<and>
        statSync w (session_dir w) (on_disk w) = Inl e"
    for e
  proof -
    from that have p: "exit_code (preflight w) = Some 1"
      by (rule preflight_throwing_check_exits)
    from c [OF p] p show ?thesis by auto
  qed
  from a b c d e f g h show ?thesis by blast
qed

theorem fatal_before_running_exits_1_witness:
  "\<not> configured w_unset \<and>
   exit_code (run w_unset) = Some 1 \<and> stop_calls (run w_unset) = 0 \<and>
   fault w_missing_dir ExistsSync = None \<and> fault w_missing_dir StatSync = None \<and>
   validate_spec (configured w_missing_dir) (path_exists w_missing_dir)
     (is_directory w_missing_dir) (probe_ok w_missing_dir) = Some PathNotFound \<and>
   exit_code (run w_missing_dir) = Some 1 \<and> stop_calls (run w_missing_dir) = 0 \<and>
   configured w_dir_busy \<and>
   existsSync w_dir_busy (session_dir w_dir_busy) (on_disk w_dir_busy) = Inr True \<and>
   statSync w_dir_busy (session_dir w_dir_busy) (on_disk w_dir_busy) =
     Inl ''Error: EBUSY: resource busy or locked, stat'' \<and>
   exit_code (run w_dir_busy) = Some 1 \<and> stop_calls (run w_dir_busy) = 0 \<and>
   failure_of (mcp_start w_start_rejects) = Some ''Error: EADDRINUSE'' \<and>
   McpStart \<in> set (calls (run w_start_rejects)) \<and>
   handlers (run w_start_rejects) = [] \<and>
   exit_code (run w_start_rejects) = Some 1 \<and>
   stop_calls (run w_start_rejects) = 0"
proof -
  have u: "\<not> configured w_unset"
    by (simp add: configured_def w_ok_def w_unset_def)
  from fatal_before_running_exits_1 [where w = w_unset] u
  have 1: "exit_code (run w_unset) = Some 1 \<and> stop_calls (run w_unset) = 0"
    by blast
  have m: "fault w_missing_dir ExistsSync = None" "fault w_missing_dir StatSync = None"
    by (simp_all add: w_ok_def w_missing_dir_def no_fault_def)
  have v: "validate_spec (configured w_missing_dir) (path_exists w_missing_dir)
     (is_directory w_missing_dir) (probe_ok w_missing_dir) = Some PathNotFound"
    by (simp add: validate_spec_def configured_def path_exists_def session_dir_def w_ok_def
        w_missing_dir_def)
  from fatal_before_running_exits_1 [where w = w_missing_dir] m v
  have 2: "exit_code (run w_missing_dir) = Some 1 \<and> stop_calls (run w_missing_dir) = 0"
    by blast
  have b: "configured w_dir_busy"
    by (simp add: configured_def w_ok_def w_dir_busy_def)
  have x: "existsSync w_dir_busy (session_dir w_dir_busy) (on_disk w_dir_busy) = Inr True"
    by (simp add: existsSync_on_disk session_dir_def w_ok_def w_dir_busy_def stat_busy_def)
  have y: "statSync w_dir_busy (session_dir w_dir_busy) (on_disk w_dir_busy) =
     Inl ''Error: EBUSY: resource busy or locked, stat''"
    by (simp add: statSync_def w_ok_def w_dir_busy_def stat_busy_def)
  from fatal_before_running_exits_1 [where w = w_dir_busy] b x y
  have 3: "exit_code (run w_dir_busy) = Some 1 \<and> stop_calls (run w_dir_busy) = 0"
    by blast
  have f: "failure_of (mcp_start w_start_rejects) = Some ''Error: EADDRINUSE''"
    by (simp add: w_ok_def w_start_rejects_def)
  have c: "McpStart \<in> set (calls (run w_start_rejects))"
    by (simp add: eval_defs w_start_rejects_def calls_def)
  have h: "handlers (run w_start_rejects) = []"
    by (simp add: eval_defs w_start_rejects_def)
  from fatal_before_running_exits_1 [where w = w_start_rejects] f c
  have 4: "exit_code (run w_start_rejects) = Some 1 \<and> stop_calls (run w_start_rejects) = 0"
    by blast
  from u 1 m v 2 b x y 3 f c h 4 show ?thesis by blast
qed

end
